theory Spec2Isabelle
  imports Main
begin

section \<open>Python values and exceptions\<close>

text \<open>
  The values that cross the boundary between a task and its driver. An object reference
  carries the type of the object it points to (what \<^verbatim>\<open>isinstance\<close> sees, which never changes)
  and its address in the store of awaitables; a tasklet is referred to by its identity.
\<close>

datatype obj_type = Generator_type | Coroutine_type | Other_type

datatype exc_class =
    StopIteration
  | TaskletStopIteration
  | StopAsyncIteration
  | GeneratorExit
  | RuntimeError
  | TypeError
  | AttributeError
  | AssertionError
  | IndexError
  | KeyboardInterrupt
  | SystemExit
  | UserException string

type_synonym traceback = "nat list"

text \<open>An exception object has its class, its first argument (\<^verbatim>\<open>ex.value\<close> of a
  StopIteration), its \<^verbatim>\<open>__cause__\<close> and its traceback. Exception classes, exception
  objects and tracebacks are values too: they are the arguments of \<^verbatim>\<open>throw\<close>.\<close>

datatype pyval =
    PNone
  | PBool bool
  | PInt int
  | PStr string
  | PTuple "pyval list"
  | PObj obj_type nat
  | PTasklet nat
  | PClass exc_class
  | PExc exn
  | PTraceback traceback
and exn = Exn (cls: exc_class) (arg: pyval) (cause: "exn option") (tb: traceback)

text \<open>\<^verbatim>\<open>class TaskletStopIteration(StopIteration)\<close>: the handler \<^verbatim>\<open>except StopIteration\<close>
  catches both classes.\<close>

fun is_StopIteration :: "exc_class \<Rightarrow> bool" where
  "is_StopIteration StopIteration = True"
| "is_StopIteration TaskletStopIteration = True"
| "is_StopIteration _ = False"

text \<open>\<^verbatim>\<open>except Exception\<close> catches every class but those deriving from BaseException alone.\<close>

fun is_Exception :: "exc_class \<Rightarrow> bool" where
  "is_Exception GeneratorExit = False"
| "is_Exception KeyboardInterrupt = False"
| "is_Exception SystemExit = False"
| "is_Exception _ = True"

type_synonym exc_info = "exc_class \<times> exn \<times> traceback"

definition sys_exc_info :: "exn \<Rightarrow> exc_info" where
  "sys_exc_info e = (cls e, e, tb e)"

definition with_traceback :: "exn \<Rightarrow> traceback \<Rightarrow> exn" where
  "with_traceback e t = Exn (cls e) (arg e) (cause e) t"

text \<open>\<^verbatim>\<open>obj.throw(*exception)\<close> and \<^verbatim>\<open>raise exception[1].with_traceback(exception[2])\<close>:
  the exception object of the triple, with the traceback of the triple.\<close>

definition thrown :: "exc_info \<Rightarrow> exn" where
  "thrown x = with_traceback (fst (snd x)) (snd (snd x))"

definition new_exn :: "exc_class \<Rightarrow> pyval \<Rightarrow> exn" where
  "new_exn c v = Exn c v None []"

section \<open>Computations of a task\<close>

text \<open>
  What code running inside a tasklet does, as the scheduler sees it: it returns, it raises,
  it calls \<^verbatim>\<open>stackless.schedule_remove(v)\<close> (publishing \<open>v\<close> and pausing until it is resumed
  with a value or an exception), or it reads the context variable
  \<^verbatim>\<open>_is_as_coroutine_tasklet\<close>. \<open>'s\<close> is the state of the objects the code works on,
  read when the code starts and left behind when it ends.
\<close>

datatype resume = Resume_value pyval | Resume_exception exn

datatype ('r, 's) comp =
    Return 'r 's
  | Raise exn 's
  | Schedule_remove pyval "resume \<Rightarrow> ('r, 's) comp"
  | Get_flag "bool \<Rightarrow> ('r, 's) comp"

type_synonym 's task = "(pyval, 's) comp"

type_synonym 's callable = "pyval list \<Rightarrow> (string \<times> pyval) list \<Rightarrow> 's \<Rightarrow> 's task"

primrec bind :: "('a, 's) comp \<Rightarrow> ('a \<Rightarrow> 's \<Rightarrow> ('b, 's) comp) \<Rightarrow> ('b, 's) comp" where
  "bind (Return a s) f = f a s"
| "bind (Raise e s) f = Raise e s"
| "bind (Schedule_remove v k) f = Schedule_remove v (\<lambda>r. bind (k r) f)"
| "bind (Get_flag k) f = Get_flag (\<lambda>b. bind (k b) f)"

text \<open>\<^verbatim>\<open>stackless.schedule_remove(v)\<close> as an expression: its value is the value the task is
  resumed with, and an exception thrown into the task is raised from it.\<close>

definition schedule_remove :: "pyval \<Rightarrow> 's \<Rightarrow> 's task" where
  "schedule_remove v s =
     Schedule_remove v (\<lambda>r. case r of Resume_value x \<Rightarrow> Return x s
                                     | Resume_exception e \<Rightarrow> Raise e s)"

definition await_marker :: "pyval \<Rightarrow> pyval" where
  "await_marker x = PTuple [PStr ''await'', x]"

text \<open>\<^verbatim>\<open>isinstance(coroutine, (collections.abc.Coroutine, collections.abc.Generator))\<close>\<close>

fun is_coroutine_or_generator :: "pyval \<Rightarrow> bool" where
  "is_coroutine_or_generator (PObj Generator_type n) = True"
| "is_coroutine_or_generator (PObj Coroutine_type n) = True"
| "is_coroutine_or_generator _ = False"

text \<open>
  \<^verbatim>\<open>
  def await_coroutine(coroutine):
      if not _is_as_coroutine_tasklet.get():
          raise RuntimeError("Can't call await_coroutine from tasklet " + repr(stackless.current))
      if not isinstance(coroutine, (collections.abc.Coroutine, collections.abc.Generator)):
          raise TypeError("argument is neither a coroutine nor a generator")
      return stackless.schedule_remove(("await", coroutine))
  \<close>
  \<open>current\<close> is \<^verbatim>\<open>repr(stackless.current)\<close>.
\<close>

definition await_coroutine :: "string \<Rightarrow> pyval \<Rightarrow> 's \<Rightarrow> 's task" where
  "await_coroutine current coroutine s =
     Get_flag (\<lambda>flag.
       if \<not> flag then
         Raise (new_exn RuntimeError (PStr (''Can't call await_coroutine from tasklet '' @ current))) s
       else if \<not> is_coroutine_or_generator coroutine then
         Raise (new_exn TypeError (PStr ''argument is neither a coroutine nor a generator'')) s
       else schedule_remove (await_marker coroutine) s)"

text \<open>
  \<^verbatim>\<open>
  def _run(args):
      raise TaskletStopIteration(args.pop()(*args.pop(), **args.pop()))
  \<close>
  The list holds the keyword arguments, the positional arguments and the callable;
  \<^verbatim>\<open>pop()\<close> takes the last element. Python evaluates the callee first, then the
  positional arguments, then the keyword arguments. A mapping in the place of the
  positional arguments is unpacked to its keys.
\<close>

datatype 's run_arg =
    Kwargs_arg "(string \<times> pyval) list"
  | Args_arg "pyval list"
  | Callable_arg "'s callable"

definition pop :: "'a list \<Rightarrow> ('a \<times> 'a list) option" where
  "pop xs = (if xs = [] then None else Some (last xs, butlast xs))"

definition raise_TaskletStopIteration :: "pyval \<Rightarrow> 's \<Rightarrow> 's task" where
  "raise_TaskletStopIteration v s = Raise (new_exn TaskletStopIteration v) s"

definition run_entry :: "'s run_arg list \<Rightarrow> 's \<Rightarrow> 's task" where
  "run_entry args s =
     (case pop args of
        None \<Rightarrow> Raise (new_exn IndexError (PStr ''pop from empty list'')) s
      | Some (f, args1) \<Rightarrow>
          (case pop args1 of
             None \<Rightarrow> Raise (new_exn IndexError (PStr ''pop from empty list'')) s
           | Some (a, args2) \<Rightarrow>
               (case pop args2 of
                  None \<Rightarrow> Raise (new_exn IndexError (PStr ''pop from empty list'')) s
                | Some (k, args3) \<Rightarrow>
                    (case (f, a, k) of
                       (Callable_arg callable, Args_arg pos, Kwargs_arg kw) \<Rightarrow>
                         bind (callable pos kw s) raise_TaskletStopIteration
                     | (Callable_arg callable, Kwargs_arg m, Kwargs_arg kw) \<Rightarrow>
                         bind (callable (map (PStr \<circ> fst) m) kw s) raise_TaskletStopIteration
                     | _ \<Rightarrow> Raise (new_exn TypeError (PStr ''not callable or not a sequence or mapping'')) s))))"

section \<open>Awaitables and the world\<close>

text \<open>
  An awaitable handed to \<^verbatim>\<open>await_coroutine\<close> is a generator or coroutine object. One step of
  it (\<^verbatim>\<open>send(v)\<close> or \<^verbatim>\<open>throw(type, value, tb)\<close>) either yields a value and goes on, or
  raises; returning \<open>v\<close> is raising \<^verbatim>\<open>StopIteration(v)\<close>. The store maps the address of an
  object to what it does next, or to \<open>None\<close> once it has finished.
\<close>

datatype ginp = Send pyval | Throw exn

datatype aw = Aw "ginp \<Rightarrow> exn + pyval \<times> aw"

fun aw_step :: "aw \<Rightarrow> ginp \<Rightarrow> exn + pyval \<times> aw" where
  "aw_step (Aw f) i = f i"

text \<open>What the bridge does to its collaborators, in the order it does it.\<close>

datatype event =
    Inner_send pyval pyval
  | Inner_throw pyval exn
  | Inner_close pyval
  | Tasklet_insert nat
  | Tasklet_throw nat exn
  | Tasklet_run nat
  | Tasklet_kill nat

record 's world =
  heap :: "nat \<Rightarrow> aw option"
  flag :: bool
  trace :: "event list"
  next_tid :: nat
  env :: 's

definition log :: "event \<Rightarrow> 's world \<Rightarrow> 's world" where
  "log ev w = w\<lparr>trace := trace w @ [ev]\<rparr>"

definition no_attribute :: "string \<Rightarrow> exn" where
  "no_attribute name = new_exn AttributeError (PStr name)"

text \<open>A finished generator raises \<^verbatim>\<open>StopIteration\<close> when sent to and the thrown exception
  when thrown at; a finished coroutine raises \<^verbatim>\<open>RuntimeError\<close> in both cases.\<close>

definition finished_send :: "obj_type \<Rightarrow> exn" where
  "finished_send ty =
     (if ty = Coroutine_type then new_exn RuntimeError (PStr ''cannot reuse already awaited coroutine'')
      else new_exn StopIteration PNone)"

definition finished_throw :: "obj_type \<Rightarrow> exn \<Rightarrow> exn" where
  "finished_throw ty e =
     (if ty = Coroutine_type then new_exn RuntimeError (PStr ''cannot reuse already awaited coroutine'')
      else e)"

definition step_object :: "obj_type \<Rightarrow> nat \<Rightarrow> ginp \<Rightarrow> exn \<Rightarrow> 's world \<Rightarrow> (exn + pyval) \<times> 's world" where
  "step_object ty n i fin w =
     (case heap w n of
        None \<Rightarrow> (Inl fin, w)
      | Some a \<Rightarrow>
          (case aw_step a i of
             Inl e \<Rightarrow> (Inl e, w\<lparr>heap := (heap w)(n := None)\<rparr>)
           | Inr (y, a') \<Rightarrow> (Inr y, w\<lparr>heap := (heap w)(n := Some a')\<rparr>)))"

text \<open>\<^verbatim>\<open>wait_for.send(value)\<close>; anything that is not a generator or a coroutine has no
  \<^verbatim>\<open>send\<close>.\<close>

definition obj_send :: "pyval \<Rightarrow> pyval \<Rightarrow> 's world \<Rightarrow> (exn + pyval) \<times> 's world" where
  "obj_send obj v w =
     (case obj of
        PObj ty n \<Rightarrow>
          if ty = Other_type then (Inl (no_attribute ''send''), w)
          else step_object ty n (Send v) (finished_send ty) (log (Inner_send obj v) w)
      | _ \<Rightarrow> (Inl (no_attribute ''send''), w))"

text \<open>\<^verbatim>\<open>wait_for.throw(*exception)\<close>\<close>

definition obj_throw :: "pyval \<Rightarrow> exc_info \<Rightarrow> 's world \<Rightarrow> (exn + pyval) \<times> 's world" where
  "obj_throw obj x w =
     (case obj of
        PObj ty n \<Rightarrow>
          if ty = Other_type then (Inl (no_attribute ''throw''), w)
          else step_object ty n (Throw (thrown x)) (finished_throw ty (thrown x))
                 (log (Inner_throw obj (thrown x)) w)
      | _ \<Rightarrow> (Inl (no_attribute ''throw''), w))"

text \<open>
  \<^verbatim>\<open>wait_for.close()\<close>: GeneratorExit is thrown at a live object. The call returns when the
  object raises GeneratorExit or StopIteration, raises RuntimeError when the object yields
  instead, and lets any other exception through. Closing a finished object does nothing.
\<close>

definition obj_close :: "pyval \<Rightarrow> 's world \<Rightarrow> exn option \<times> 's world" where
  "obj_close obj w =
     (case obj of
        PObj ty n \<Rightarrow>
          if ty = Other_type then (Some (no_attribute ''close''), w)
          else
            (let w1 = log (Inner_close obj) w in
             case heap w1 n of
               None \<Rightarrow> (None, w1)
             | Some a \<Rightarrow>
                 (case aw_step a (Throw (new_exn GeneratorExit PNone)) of
                    Inl e \<Rightarrow>
                      (if cls e = GeneratorExit \<or> is_StopIteration (cls e) then None else Some e,
                       w1\<lparr>heap := (heap w1)(n := None)\<rparr>)
                  | Inr (y, a') \<Rightarrow>
                      (Some (new_exn RuntimeError (PStr ''generator ignored GeneratorExit'')),
                       w1\<lparr>heap := (heap w1)(n := Some a')\<rparr>)))
      | _ \<Rightarrow> (Some (no_attribute ''close''), w))"

section \<open>Tasklets and the scheduler\<close>

text \<open>
  The stackful task of the external scheduler, with the attributes the bridge reads.
  A tasklet that has not run yet holds its whole body; a paused one holds what it does
  when resumed. The field \<open>raised\<close> is a history variable: it records the exception that
  ended the task, if one did, and nothing in the code reads it.
\<close>

datatype 's frame =
    Fresh "'s \<Rightarrow> 's task"
  | Blocked "resume \<Rightarrow> 's task"
  | Ended

record 's tasklet =
  tid :: nat
  alive :: bool
  paused :: bool
  scheduled :: bool
  tempval :: pyval
  pending :: "exn option"
  frame :: "'s frame"
  raised :: "exn option"

text \<open>The code of a tasklet runs up to its next suspension or its end; reading the context
  variable does not suspend it.\<close>

datatype ('r, 's) head =
    Head_return 'r 's
  | Head_raise exn 's
  | Head_suspend pyval "resume \<Rightarrow> ('r, 's) comp"

primrec advance :: "bool \<Rightarrow> ('r, 's) comp \<Rightarrow> ('r, 's) head" where
  "advance b (Return v s) = Head_return v s"
| "advance b (Raise e s) = Head_raise e s"
| "advance b (Schedule_remove v k) = Head_suspend v k"
| "advance b (Get_flag k) = advance b (k b)"

text \<open>Modelled from the spec: the scheduler of Stackless Python, which is not part of the
  repository, by the contract of section 4.1: \<open>spawn\<close> creates a runnable task bound to
  a callable and its arguments.\<close>

definition spawn :: "('s \<Rightarrow> 's task) \<Rightarrow> 's world \<Rightarrow> 's tasklet \<times> 's world" where
  "spawn body w =
     (\<lparr>tid = next_tid w, alive = True, paused = False, scheduled = True,
       tempval = PNone, pending = None, frame = Fresh body, raised = None\<rparr>,
      w\<lparr>next_tid := Suc (next_tid w)\<rparr>)"

text \<open>Modelled from the spec: \<open>insert_into_run_queue\<close> makes a paused task runnable.\<close>

definition insert :: "'s tasklet \<Rightarrow> 's world \<Rightarrow> 's tasklet \<times> 's world" where
  "insert t w = (t\<lparr>paused := False, scheduled := True\<rparr>, log (Tasklet_insert (tid t)) w)"

text \<open>Modelled from the spec: \<open>resume_with_exception\<close>, the exception being raised in the
  task when it next runs (\<^verbatim>\<open>tasklet.throw(*exception, pending=True)\<close>).\<close>

definition throw_pending :: "'s tasklet \<Rightarrow> exc_info \<Rightarrow> 's world \<Rightarrow> 's tasklet \<times> 's world" where
  "throw_pending t x w = (t\<lparr>pending := Some (thrown x)\<rparr>, log (Tasklet_throw (tid t) (thrown x)) w)"

text \<open>Modelled from the spec: \<open>kill\<close>, forcible termination.\<close>

definition kill :: "'s tasklet \<Rightarrow> 's world \<Rightarrow> 's tasklet \<times> 's world" where
  "kill t w =
     (t\<lparr>alive := False, paused := False, scheduled := False, pending := None, frame := Ended\<rparr>,
      log (Tasklet_kill (tid t)) w)"

definition ended :: "'s tasklet \<Rightarrow> pyval \<Rightarrow> exn option \<Rightarrow> 's tasklet" where
  "ended t v r = t\<lparr>alive := False, paused := False, scheduled := False, tempval := v,
                   pending := None, frame := Ended, raised := r\<rparr>"

text \<open>
  Modelled from the spec: \<open>run_until_yield_or_finish\<close> (\<^verbatim>\<open>stackless.run()\<close>) advances the
  runnable task to its next suspension or completion. An exception that ends the task
  is raised from the call; a task that suspends has published its value in its output
  slot and is paused; a task whose body returns has left its result there.
\<close>

definition stackless_run :: "'s tasklet \<Rightarrow> 's world \<Rightarrow> exn option \<times> 's tasklet \<times> 's world" where
  "stackless_run t w =
     (if \<not> scheduled t then (None, t, w)
      else
        (let w1 = log (Tasklet_run (tid t)) w;
             r = (case pending t of
                    Some e \<Rightarrow> Resume_exception e
                  | None \<Rightarrow> Resume_value (tempval t));
             h = (case frame t of
                    Fresh body \<Rightarrow>
                      (case pending t of
                         Some e \<Rightarrow> Head_raise e (env w1)
                       | None \<Rightarrow> advance (flag w1) (body (env w1)))
                  | Blocked k \<Rightarrow> advance (flag w1) (k r)
                  | Ended \<Rightarrow> Head_return PNone (env w1))
         in case h of
              Head_return v s \<Rightarrow> (None, ended t v None, w1\<lparr>env := s\<rparr>)
            | Head_raise e s \<Rightarrow> (Some e, ended t PNone (Some e), w1\<lparr>env := s\<rparr>)
            | Head_suspend v k \<Rightarrow>
                (None,
                 t\<lparr>paused := True, scheduled := False, tempval := v, pending := None,
                   frame := Blocked k\<rparr>,
                 w1)))"

text \<open>
  \<^verbatim>\<open>
  def _run_as_coroutine_tasklet():
      token = _is_as_coroutine_tasklet.set(True)
      try:
          return stackless.run()
      finally:
          _is_as_coroutine_tasklet.reset(token)
  \<close>
\<close>

definition run_as_coroutine_tasklet :: "'s tasklet \<Rightarrow> 's world \<Rightarrow> exn option \<times> 's tasklet \<times> 's world" where
  "run_as_coroutine_tasklet t w =
     (let token = flag w;
          (r, t', w') = stackless_run t (w\<lparr>flag := True\<rparr>)
      in (r, t', w'\<lparr>flag := token\<rparr>))"

section \<open>The coroutine bridge\<close>

text \<open>\<^verbatim>\<open>isinstance(value, tuple) and len(value) == 2 and value[0] == "await"\<close>\<close>

fun is_await_marker :: "pyval \<Rightarrow> bool" where
  "is_await_marker (PTuple [a, b]) = (a = PStr ''await'')"
| "is_await_marker _ = False"

fun marker_payload :: "pyval \<Rightarrow> pyval" where
  "marker_payload (PTuple [a, b]) = b"
| "marker_payload _ = PNone"

text \<open>The outcome of one step of a generator: it yields, it returns (StopIteration carrying
  the value), or an exception leaves it.\<close>

datatype gen_out = Yielded pyval | Returned pyval | Raised exn

text \<open>The local variables of \<^verbatim>\<open>new_generator_coroutine\<close>.\<close>

record 's locals =
  tasklet :: "'s tasklet"
  wait_for :: pyval
  val :: pyval
  exception :: "exc_info option"

text \<open>The generator object: not started, suspended at its \<^verbatim>\<open>yield\<close>, or finished (the
  tasklet it had, if any, is kept for inspection).\<close>

datatype 's bridge =
    Unstarted "'s callable" "pyval list" "(string \<times> pyval) list"
  | Suspended "'s locals"
  | Finished "'s tasklet option"

definition assertion_error :: exn where
  "assertion_error = new_exn AssertionError PNone"

text \<open>
  The exception handlers of lines 77 to 84, applied to what \<^verbatim>\<open>wait_for.send\<close> or
  \<^verbatim>\<open>wait_for.throw\<close> did. An exception that is no \<^verbatim>\<open>Exception\<close> leaves the generator.
\<close>

definition inner_result :: "'s locals \<Rightarrow> exn + pyval \<Rightarrow> exn + 's locals" where
  "inner_result l r =
     (case r of
        Inr y \<Rightarrow> Inr (l\<lparr>val := y\<rparr>)
      | Inl e \<Rightarrow>
          if is_StopIteration (cls e) then Inr (l\<lparr>wait_for := PNone, val := arg e\<rparr>)
          else if is_Exception (cls e) then
            Inr (l\<lparr>wait_for := PNone, exception := Some (sys_exc_info e), val := PNone\<rparr>)
          else Inl e)"

text \<open>
  Lines 67 to 84:
  \<^verbatim>\<open>
  if wait_for is not None:
      assert tasklet.paused
      try:
          if exception is None:
              value = tasklet.context_run(wait_for.send, value)
          else:
              try:
                  value = tasklet.context_run(wait_for.throw, *exception)
              finally:
                  exception = None
      except StopIteration as ex:
          wait_for = None
          value = ex.value
      except Exception:
          wait_for = None
          exception = sys.exc_info()
          value = None
  \<close>
\<close>

definition drive_inner :: "'s locals \<Rightarrow> 's world \<Rightarrow> (exn + 's locals) \<times> 's world" where
  "drive_inner l w =
     (if wait_for l \<noteq> PNone then
        if \<not> paused (tasklet l) then (Inl assertion_error, w)
        else
          (case exception l of
             None \<Rightarrow>
               (case obj_send (wait_for l) (val l) w of
                  (r, w') \<Rightarrow> (inner_result l r, w'))
           | Some x \<Rightarrow>
               (case obj_throw (wait_for l) x w of
                  (r, w') \<Rightarrow> (inner_result (l\<lparr>exception := None\<rparr>) r, w')))
      else (Inr l, w))"

datatype 's next_step =
    Exit gen_out "'s tasklet"
  | Loop "'s locals"
  | To_yield "'s locals"

text \<open>
  Lines 86 to 130, entered when \<^verbatim>\<open>wait_for is None\<close>:
  \<^verbatim>\<open>
  if not tasklet.alive:
      if exception is not None:
          try:
              raise exception[1].with_traceback(exception[2])
          finally:
              exception = None
      return value
  if tasklet.paused:
      tasklet.insert()
  assert tasklet.scheduled
  tasklet.tempval = value
  value = None
  try:
      if exception is not None:
          try:
              tasklet.throw(*exception, pending=True)
          finally:
              exception = None
      tasklet.context_run(_run_as_coroutine_tasklet)
  except TaskletStopIteration as ex:
      return ex.value
  except StopIteration as ex:
      raise StopAsyncIteration() from ex
  value = tasklet.tempval
  tasklet.tempval = None
  if value is tasklet:
      value = None
  if isinstance(value, tuple) and len(value) == 2 and value[0] == "await":
      assert tasklet.paused
      wait_for = value[1]
      value = None
      continue
  \<close>
\<close>

definition run_task :: "'s locals \<Rightarrow> 's world \<Rightarrow> 's next_step \<times> 's world" where
  "run_task l w =
     (let t = tasklet l in
      if \<not> alive t then
        (case exception l of
           Some x \<Rightarrow> (Exit (Raised (thrown x)) t, w)
         | None \<Rightarrow> (Exit (Returned (val l)) t, w))
      else
        (let (t1, w1) = (if paused t then insert t w else (t, w)) in
         if \<not> scheduled t1 then (Exit (Raised assertion_error) t1, w1)
         else
           (let t2 = t1\<lparr>tempval := val l\<rparr>;
                (t3, w3) = (case exception l of
                              Some x \<Rightarrow> throw_pending t2 x w1
                            | None \<Rightarrow> (t2, w1));
                (r, t4, w4) = run_as_coroutine_tasklet t3 w3
            in case r of
                 Some e \<Rightarrow>
                   if cls e = TaskletStopIteration then (Exit (Returned (arg e)) t4, w4)
                   else if is_StopIteration (cls e) then
                     (Exit (Raised (Exn StopAsyncIteration PNone (Some e) [])) t4, w4)
                   else (Exit (Raised e) t4, w4)
               | None \<Rightarrow>
                   (let v = tempval t4;
                        t5 = t4\<lparr>tempval := PNone\<rparr>;
                        v' = (if v = PTasklet (tid t5) then PNone else v)
                    in if is_await_marker v' then
                         if \<not> paused t5 then (Exit (Raised assertion_error) t5, w4)
                         else (Loop (l\<lparr>tasklet := t5, wait_for := marker_payload v',
                                       val := PNone, exception := None\<rparr>), w4)
                       else (To_yield (l\<lparr>tasklet := t5, val := v', exception := None\<rparr>), w4)))))"

text \<open>
  The loop of \<^verbatim>\<open>new_generator_coroutine\<close> runs on only through \<^verbatim>\<open>continue\<close>, after the
  tasklet has run and paused again. The order below says that a frame is what remains of
  another after the task has run once more; it is well-founded, so the loop ends.
\<close>

inductive_set frame_lt :: "('s frame \<times> 's frame) set" where
  "advance b (k r) = Head_suspend v k' \<Longrightarrow> (Blocked k', Blocked k) \<in> frame_lt"
| "advance b (body s) = Head_suspend v k' \<Longrightarrow> (Blocked k', Fresh body) \<in> frame_lt"

lemma blocked_acc:
  "\<forall>b v k'. advance b c = Head_suspend v k' \<longrightarrow> Blocked k' \<in> Wellfounded.acc frame_lt"
proof (induction c)
  case (Return x1 x2)
  then show ?case by simp
next
  case (Raise x1 x2)
  then show ?case by simp
next
  case (Schedule_remove x1 k)
  show ?case
  proof (intro allI impI)
    fix b v k'
    assume "advance b (Schedule_remove x1 k) = Head_suspend v k'"
    then have eq: "k' = k" by simp
    show "Blocked k' \<in> Wellfounded.acc frame_lt"
      unfolding eq
    proof (rule accI)
      fix y assume "(y, Blocked k) \<in> frame_lt"
      then obtain b' r v' k'' where "y = Blocked k''" "advance b' (k r) = Head_suspend v' k''"
        by (auto elim: frame_lt.cases)
      with Schedule_remove show "y \<in> Wellfounded.acc frame_lt" by (metis rangeI)
    qed
  qed
next
  case (Get_flag k)
  then show ?case by (metis advance.simps(4) rangeI)
qed

lemma wf_frame_lt: "wf (frame_lt :: ('s frame \<times> 's frame) set)"
proof (rule acc_wfI, rule allI)
  fix x :: "'s frame"
  show "x \<in> Wellfounded.acc frame_lt"
  proof (cases x)
    case (Fresh body)
    show ?thesis unfolding Fresh
    proof (rule accI)
      fix y assume "(y, Fresh body) \<in> frame_lt"
      then obtain b s v k' where "y = Blocked k'" "advance b (body s) = Head_suspend v k'"
        by (auto elim: frame_lt.cases)
      then show "y \<in> Wellfounded.acc frame_lt" using blocked_acc by metis
    qed
  next
    case (Blocked k)
    have "advance True (Schedule_remove PNone k :: 's task) = Head_suspend PNone k" by simp
    then show ?thesis unfolding Blocked using blocked_acc by metis
  next
    case Ended
    show ?thesis unfolding Ended
      by (rule accI) (auto elim: frame_lt.cases)
  qed
qed

lemma inner_result_tasklet: "inner_result l r = Inr l1 \<Longrightarrow> tasklet l1 = tasklet l"
  by (auto simp: inner_result_def split: sum.splits if_splits)

lemma drive_inner_tasklet: "drive_inner l w = (Inr l1, w1) \<Longrightarrow> tasklet l1 = tasklet l"
  by (auto simp: drive_inner_def split: if_splits option.splits prod.splits
      dest: inner_result_tasklet)

lemma stackless_run_paused:
  "stackless_run t w = (None, t', w') \<Longrightarrow> scheduled t \<Longrightarrow> paused t' \<Longrightarrow>
   (frame t', frame t) \<in> frame_lt"
  by (auto simp: stackless_run_def Let_def ended_def
      split: if_splits head.splits frame.splits option.splits intro: frame_lt.intros)

lemma run_as_coroutine_tasklet_paused:
  "run_as_coroutine_tasklet t w = (None, t', w') \<Longrightarrow> scheduled t \<Longrightarrow> paused t' \<Longrightarrow>
   (frame t', frame t) \<in> frame_lt"
  by (auto simp: run_as_coroutine_tasklet_def Let_def split: prod.splits
      dest: stackless_run_paused)

lemma run_task_loop:
  "run_task l w = (Loop l2, w2) \<Longrightarrow> (frame (tasklet l2), frame (tasklet l)) \<in> frame_lt"
  apply (simp add: run_task_def Let_def split: if_splits option.splits prod.splits)
     apply (auto simp: insert_def throw_pending_def dest!: run_as_coroutine_tasklet_paused)
  done

text \<open>
  \<^verbatim>\<open>
  while True:
      if wait_for is not None:
          ...                      # drive_inner
      if wait_for is None:
          ...                      # run_task
      try:
          value = yield value
      ...
  \<close>
  One call runs the loop from its head to the next \<^verbatim>\<open>yield\<close>, or to the end of the
  generator.
\<close>

function loop :: "'s locals \<Rightarrow> 's world \<Rightarrow> gen_out \<times> 's bridge \<times> 's world" where
  "loop l w =
     (case drive_inner l w of
        (Inl e, w1) \<Rightarrow> (Raised e, Finished (Some (tasklet l)), w1)
      | (Inr l1, w1) \<Rightarrow>
          if wait_for l1 = PNone then
            (case run_task l1 w1 of
               (Exit out t, w2) \<Rightarrow> (out, Finished (Some t), w2)
             | (Loop l2, w2) \<Rightarrow> loop l2 w2
             | (To_yield l2, w2) \<Rightarrow> (Yielded (val l2), Suspended l2, w2))
          else (Yielded (val l1), Suspended l1, w1))"
  by pat_completeness auto
termination
proof (relation "inv_image frame_lt (\<lambda>(l, w). frame (tasklet l))")
  show "wf (inv_image frame_lt (\<lambda>(l :: 's locals, w :: 's world). frame (tasklet l)))"
    by (rule wf_inv_image) (rule wf_frame_lt)
next
  fix l :: "'s locals" and w :: "'s world" and x1 x2 b x1a x2a x2b
  assume "(x1, x2) = drive_inner l w" "x1 = Inr b" "wait_for b = PNone"
    "(x1a, x2a) = run_task b x2" "x1a = Loop x2b"
  then show "((x2b, x2a), l, w) \<in> inv_image frame_lt (\<lambda>(l, w). frame (tasklet l))"
    using drive_inner_tasklet[of l w b x2] run_task_loop[of b x2 x2b x2a] by simp
qed

declare loop.simps [simp del]

text \<open>
  Lines 132 to 146, the generator being resumed at its \<^verbatim>\<open>yield\<close>:
  \<^verbatim>\<open>
  try:
      value = yield value
  except GeneratorExit:
      if wait_for is not None:
          try:
              wait_for.close()
          finally:
              wait_for = None
      if tasklet.alive:
          tasklet.kill()
      raise
  except Exception:
      exception = sys.exc_info()
      value = None
  \<close>
\<close>

definition at_yield :: "'s locals \<Rightarrow> ginp \<Rightarrow> 's world \<Rightarrow> (gen_out \<times> 's tasklet + 's locals) \<times> 's world" where
  "at_yield l i w =
     (case i of
        Send v \<Rightarrow> (Inr (l\<lparr>val := v\<rparr>), w)
      | Throw e \<Rightarrow>
          if cls e = GeneratorExit then
            (let (r, l1, w1) =
                   (if wait_for l \<noteq> PNone then
                      (case obj_close (wait_for l) w of
                         (r, w') \<Rightarrow> (r, l\<lparr>wait_for := PNone\<rparr>, w'))
                    else (None, l, w))
             in case r of
                  Some e' \<Rightarrow> (Inl (Raised e', tasklet l1), w1)
                | None \<Rightarrow>
                    (let (t, w2) = (if alive (tasklet l1) then kill (tasklet l1) w1
                                    else (tasklet l1, w1))
                     in (Inl (Raised e, t), w2)))
          else if is_Exception (cls e) then
            (Inr (l\<lparr>exception := Some (sys_exc_info e), val := PNone\<rparr>), w)
          else (Inl (Raised e, tasklet l), w))"

text \<open>Lines 57 to 64: the tasklet is created when the generator is first resumed.\<close>

definition start_body :: "'s callable \<Rightarrow> pyval list \<Rightarrow> (string \<times> pyval) list \<Rightarrow> 's world
    \<Rightarrow> gen_out \<times> 's bridge \<times> 's world" where
  "start_body callable args kwargs w =
     (let (t, w1) = spawn (run_entry [Kwargs_arg kwargs, Args_arg args, Callable_arg callable]) w
      in loop \<lparr>tasklet = t, wait_for = PNone, val = PNone, exception = None\<rparr> w1)"

text \<open>A StopIteration that leaves the body of a generator reaches the caller as a
  RuntimeError (PEP 479).\<close>

definition leave_generator :: "gen_out \<Rightarrow> gen_out" where
  "leave_generator out =
     (case out of
        Raised e \<Rightarrow>
          if is_StopIteration (cls e) then
            Raised (Exn RuntimeError (PStr ''generator raised StopIteration'') (Some e) [])
          else Raised e
      | _ \<Rightarrow> out)"

text \<open>Calling \<^verbatim>\<open>new_generator_coroutine(callable_, *args, **kwargs)\<close> makes the generator
  object and runs nothing.\<close>

definition new_generator_coroutine :: "'s callable \<Rightarrow> pyval list \<Rightarrow> (string \<times> pyval) list \<Rightarrow> 's bridge" where
  "new_generator_coroutine callable args kwargs = Unstarted callable args kwargs"

text \<open>One \<^verbatim>\<open>send\<close> or \<^verbatim>\<open>throw\<close> of the outer driver on the generator object.\<close>

fun bridge_step :: "'s bridge \<Rightarrow> ginp \<Rightarrow> 's world \<Rightarrow> gen_out \<times> 's bridge \<times> 's world" where
  "bridge_step (Unstarted callable args kwargs) (Send v) w =
     (if v \<noteq> PNone then
        (Raised (new_exn TypeError (PStr ''can't send non-None value to a just-started generator'')),
         Unstarted callable args kwargs, w)
      else (case start_body callable args kwargs w of
              (out, b, w') \<Rightarrow> (leave_generator out, b, w')))"
| "bridge_step (Unstarted callable args kwargs) (Throw e) w =
     (leave_generator (Raised e), Finished None, w)"
| "bridge_step (Suspended l) i w =
     (case at_yield l i w of
        (Inl (out, t), w1) \<Rightarrow> (leave_generator out, Finished (Some t), w1)
      | (Inr l1, w1) \<Rightarrow>
          (case loop l1 w1 of (out, b, w') \<Rightarrow> (leave_generator out, b, w')))"
| "bridge_step (Finished t) (Send v) w = (Returned PNone, Finished t, w)"
| "bridge_step (Finished t) (Throw e) w = (Raised e, Finished t, w)"

text \<open>\<^verbatim>\<open>close()\<close> of the generator object: GeneratorExit is thrown in at the \<^verbatim>\<open>yield\<close>.\<close>

definition bridge_close :: "'s bridge \<Rightarrow> 's world \<Rightarrow> exn option \<times> 's bridge \<times> 's world" where
  "bridge_close b w =
     (case b of
        Unstarted callable args kwargs \<Rightarrow> (None, Finished None, w)
      | Finished t \<Rightarrow> (None, b, w)
      | Suspended l \<Rightarrow>
          (case bridge_step b (Throw (new_exn GeneratorExit PNone)) w of
             (Yielded v, b', w') \<Rightarrow>
               (Some (new_exn RuntimeError (PStr ''generator ignored GeneratorExit'')), b', w')
           | (Returned v, b', w') \<Rightarrow> (None, b', w')
           | (Raised e, b', w') \<Rightarrow>
               (if cls e = GeneratorExit \<or> is_StopIteration (cls e) then None else Some e, b', w')))"

text \<open>
  \<^verbatim>\<open>
  def as_coroutinefunction(callable_):
      @functools.wraps(callable_)
      async def coro(*args, **kwargs):
          return await new_generator_coroutine(callable_, *args, **kwargs)
      return coro

  def new_coroutine(callable_, *args, **kwargs):
      return as_coroutinefunction(callable_)(*args, **kwargs)
  \<close>
  The coroutine object delegates to the bridge it awaits: values go to its \<^verbatim>\<open>send\<close>,
  exceptions to its \<^verbatim>\<open>throw\<close>, GeneratorExit to its \<^verbatim>\<open>close\<close>. The keyword arguments
  are those that \<^verbatim>\<open>new_coroutine(callable_, *args, **kwargs)\<close> binds to \<^verbatim>\<open>**kwargs\<close>, none
  of which is named \<^verbatim>\<open>callable_\<close>; a call of \<^verbatim>\<open>coro\<close> with a keyword of that name, which
  makes line 240 raise TypeError, is outside the model.
\<close>

datatype 's coroutine =
    Coro_unstarted "'s callable" "pyval list" "(string \<times> pyval) list"
  | Coro_awaiting "'s bridge"
  | Coro_finished

definition awaiting :: "gen_out \<times> 's bridge \<times> 's world \<Rightarrow> gen_out \<times> 's coroutine \<times> 's world" where
  "awaiting r =
     (case r of
        (Yielded y, b, w) \<Rightarrow> (Yielded y, Coro_awaiting b, w)
      | (out, b, w) \<Rightarrow> (out, Coro_finished, w))"

definition reused :: exn where
  "reused = new_exn RuntimeError (PStr ''cannot reuse already awaited coroutine'')"

text \<open>An exception thrown into a coroutine that has not started is raised at the start of
  its body; a StopIteration that leaves the body of a coroutine reaches the caller as a
  RuntimeError.\<close>

definition leave_coroutine :: "exn \<Rightarrow> exn" where
  "leave_coroutine e =
     (if is_StopIteration (cls e) then
        Exn RuntimeError (PStr ''coroutine raised StopIteration'') (Some e) []
      else e)"

fun coro_step :: "'s coroutine \<Rightarrow> ginp \<Rightarrow> 's world \<Rightarrow> gen_out \<times> 's coroutine \<times> 's world" where
  "coro_step (Coro_unstarted callable args kwargs) (Send v) w =
     (if v \<noteq> PNone then
        (Raised (new_exn TypeError (PStr ''can't send non-None value to a just-started coroutine'')),
         Coro_unstarted callable args kwargs, w)
      else awaiting (bridge_step (new_generator_coroutine callable args kwargs) (Send PNone) w))"
| "coro_step (Coro_unstarted callable args kwargs) (Throw e) w =
     (Raised (leave_coroutine e), Coro_finished, w)"
| "coro_step (Coro_awaiting b) (Send v) w = awaiting (bridge_step b (Send v) w)"
| "coro_step (Coro_awaiting b) (Throw e) w =
     (if cls e = GeneratorExit then
        (case bridge_close b w of
           (Some e', b', w') \<Rightarrow> (Raised e', Coro_finished, w')
         | (None, b', w') \<Rightarrow> (Raised e, Coro_finished, w'))
      else awaiting (bridge_step b (Throw e) w))"
| "coro_step Coro_finished i w = (Raised reused, Coro_finished, w)"

definition as_coroutinefunction :: "'s callable \<Rightarrow> pyval list \<Rightarrow> (string \<times> pyval) list \<Rightarrow> 's coroutine" where
  "as_coroutinefunction callable args kwargs = Coro_unstarted callable args kwargs"

definition new_coroutine :: "'s callable \<Rightarrow> pyval list \<Rightarrow> (string \<times> pyval) list \<Rightarrow> 's coroutine" where
  "new_coroutine callable args kwargs = as_coroutinefunction callable args kwargs"

text \<open>
  The states of the bridge at its \<^verbatim>\<open>yield\<close> (section 4.3 of the specification). The task
  is paused in \<^verbatim>\<open>schedule_remove\<close> with continuation \<open>k\<close>; either it has published a
  plain value and no inner awaitable is pending (\<open>RUNNING_TASK\<close>), or the bridge is
  stepping the awaitable at address \<open>n\<close> (\<open>DRIVING_INNER\<close>).
\<close>

definition blocked_on :: "'s tasklet \<Rightarrow> (resume \<Rightarrow> 's task) \<Rightarrow> bool" where
  "blocked_on t k =
     (alive t \<and> paused t \<and> \<not> scheduled t \<and> pending t = None \<and> frame t = Blocked k)"

definition running_task :: "'s locals \<Rightarrow> (resume \<Rightarrow> 's task) \<Rightarrow> bool" where
  "running_task l k = (blocked_on (tasklet l) k \<and> wait_for l = PNone \<and> exception l = None)"

definition driving_inner :: "'s locals \<Rightarrow> (resume \<Rightarrow> 's task) \<Rightarrow> obj_type \<Rightarrow> nat \<Rightarrow> bool" where
  "driving_inner l k ty n =
     (blocked_on (tasklet l) k \<and> wait_for l = PObj ty n \<and> ty \<noteq> Other_type \<and>
      exception l = None)"

text \<open>
  Driving from outside. \<open>bridge_drive\<close> feeds the inputs of an outer driver to the bridge
  for as long as it yields, and collects what it yields. \<open>aw_yields\<close> is what an
  awaitable yields when it is stepped directly with a list of inputs, up to the step at
  which it stops. An input is \<open>deliverable\<close> when the \<^verbatim>\<open>yield\<close> of the bridge hands it
  on: a value, or an exception caught by \<^verbatim>\<open>except Exception\<close>.
\<close>

fun deliverable :: "ginp \<Rightarrow> bool" where
  "deliverable (Send v) = True"
| "deliverable (Throw e) = is_Exception (cls e)"





text \<open>The task of a bridge, once it has one, and the exception that has ended it, if one
  has.\<close>

definition bridge_task :: "'s bridge \<Rightarrow> 's tasklet option" where
  "bridge_task b =
     (case b of
        Unstarted callable args kwargs \<Rightarrow> None
      | Suspended l \<Rightarrow> Some (tasklet l)
      | Finished t \<Rightarrow> t)"

definition task_raised :: "'s bridge \<Rightarrow> exn option" where
  "task_raised b = (case bridge_task b of None \<Rightarrow> None | Some t \<Rightarrow> raised t)"

section \<open>The forward iterator adapter\<close>

text \<open>
  The class of the asynchronous iterator handed to \<^verbatim>\<open>generator\<close>, over the state \<open>'o\<close> of
  the object. A method the class does not have is \<open>None\<close>; a call either raises or returns
  an awaitable, and leaves the object in a new state.
\<close>

record 'o async_class =
  aiter_m :: "'o \<Rightarrow> exn + 'o"
  anext_m :: "('o \<Rightarrow> (exn + pyval) \<times> 'o) option"
  asend_m :: "('o \<Rightarrow> pyval \<Rightarrow> (exn + pyval) \<times> 'o) option"
  athrow_m :: "('o \<Rightarrow> exc_info \<Rightarrow> (exn + pyval) \<times> 'o) option"
  aclose_m :: "('o \<Rightarrow> (exn + pyval) \<times> 'o) option"

text \<open>The local variables \<^verbatim>\<open>method\<close> and \<^verbatim>\<open>value\<close>, which are set together:
  \<^verbatim>\<open>cls.__anext__\<close> with \<^verbatim>\<open>()\<close>, \<^verbatim>\<open>cls.asend\<close> with \<^verbatim>\<open>(x,)\<close>, \<^verbatim>\<open>cls.athrow\<close> with
  \<^verbatim>\<open>sys.exc_info()\<close>.\<close>

datatype pending_call = Call_anext | Call_asend pyval | Call_athrow exc_info

text \<open>\<^verbatim>\<open>method(asyncgen, *value)\<close>\<close>

definition call_method :: "'o async_class \<Rightarrow> pending_call \<Rightarrow> 'o \<Rightarrow> (exn + pyval) \<times> 'o" where
  "call_method C c ob =
     (case c of
        Call_anext \<Rightarrow>
          (case anext_m C of
             Some f \<Rightarrow> f ob
           | None \<Rightarrow> (Inl (no_attribute ''__anext__''), ob))
      | Call_asend v \<Rightarrow>
          (case asend_m C of
             Some f \<Rightarrow> f ob v
           | None \<Rightarrow> (Inl (no_attribute ''asend''), ob))
      | Call_athrow x \<Rightarrow>
          (case athrow_m C of
             Some f \<Rightarrow> f ob x
           | None \<Rightarrow> (Inl (no_attribute ''athrow''), ob)))"

text \<open>The generator object made by \<^verbatim>\<open>generator(asyncgen)\<close>.\<close>

datatype 'o forward = Forward_unstarted 'o | Forward_suspended 'o | Forward_finished

text \<open>An exception at line 159: \<^verbatim>\<open>except StopAsyncIteration: return\<close>; any other exception
  leaves the generator.\<close>

definition forward_exit :: "exn \<Rightarrow> 's \<Rightarrow> (gen_out \<times> 'o forward, 's) comp" where
  "forward_exit e s =
     Return (if cls e = StopAsyncIteration then Returned PNone else leave_generator (Raised e),
             Forward_finished) s"

text \<open>
  Lines 157 to 163, from the head of the loop to the \<^verbatim>\<open>yield\<close>:
  \<^verbatim>\<open>
  while True:
      try:
          value = stackless.schedule_remove(("await", method(asyncgen, *value)))
      except StopAsyncIteration:
          return
      try:
          value = ((yield value),)
  \<close>
\<close>

definition forward_loop :: "'o async_class \<Rightarrow> 'o \<Rightarrow> pending_call \<Rightarrow> 's \<Rightarrow> (gen_out \<times> 'o forward, 's) comp" where
  "forward_loop C ob c s =
     (case call_method C c ob of
        (Inl e, ob') \<Rightarrow> forward_exit e s
      | (Inr a, ob') \<Rightarrow>
          Schedule_remove (await_marker a)
            (\<lambda>r. case r of
                    Resume_value v \<Rightarrow> Return (Yielded v, Forward_suspended ob') s
                  | Resume_exception e \<Rightarrow> forward_exit e s))"

text \<open>
  Lines 150 to 156, run when the generator is first resumed:
  \<^verbatim>\<open>
  if not _is_as_coroutine_tasklet.get():
      raise RuntimeError("Can't call generator() from tasklet " + repr(stackless.current))
  asyncgen = type(asyncgen).__aiter__(asyncgen)
  cls = type(asyncgen)
  # first method is always __anext__
  method = cls.__anext__
  value = ()
  \<close>
\<close>

definition forward_start :: "string \<Rightarrow> 'o async_class \<Rightarrow> 'o \<Rightarrow> 's \<Rightarrow> (gen_out \<times> 'o forward, 's) comp" where
  "forward_start current C ob s =
     Get_flag (\<lambda>flag.
       if \<not> flag then
         Return (Raised (new_exn RuntimeError (PStr (''Can't call generator() from tasklet '' @ current))),
                 Forward_finished) s
       else
         (case aiter_m C ob of
            Inl e \<Rightarrow> Return (leave_generator (Raised e), Forward_finished) s
          | Inr it \<Rightarrow>
              (case anext_m C of
                 None \<Rightarrow> Return (Raised (no_attribute ''__anext__''), Forward_finished) s
               | Some f \<Rightarrow> forward_loop C it Call_anext s)))"

text \<open>
  Lines 162 to 173, the generator being resumed at its \<^verbatim>\<open>yield\<close>:
  \<^verbatim>\<open>
  try:
      value = ((yield value),)
      method = cls.asend
  except GeneratorExit:
      try:
          stackless.schedule_remove(("await", cls.aclose(asyncgen)))
      except StopAsyncIteration:
          pass
      raise
  except Exception:
      value = sys.exc_info()
      method = cls.athrow
  \<close>
  A class without \<^verbatim>\<open>asend\<close> makes \<^verbatim>\<open>method = cls.asend\<close> raise AttributeError inside the
  \<^verbatim>\<open>try\<close>, which \<^verbatim>\<open>except Exception\<close> catches.
\<close>

definition forward_throw :: "'o async_class \<Rightarrow> 'o \<Rightarrow> exn \<Rightarrow> 's \<Rightarrow> (gen_out \<times> 'o forward, 's) comp" where
  "forward_throw C ob e s =
     (case athrow_m C of
        None \<Rightarrow> Return (Raised (no_attribute ''athrow''), Forward_finished) s
      | Some f \<Rightarrow> forward_loop C ob (Call_athrow (sys_exc_info e)) s)"

definition forward_close :: "'o async_class \<Rightarrow> 'o \<Rightarrow> exn \<Rightarrow> 's \<Rightarrow> (gen_out \<times> 'o forward, 's) comp" where
  "forward_close C ob e s =
     (case aclose_m C of
        None \<Rightarrow> Return (Raised (no_attribute ''aclose''), Forward_finished) s
      | Some f \<Rightarrow>
          (case f ob of
             (Inl e', ob') \<Rightarrow>
               Return (if cls e' = StopAsyncIteration then Raised e else leave_generator (Raised e'),
                       Forward_finished) s
           | (Inr a, ob') \<Rightarrow>
               Schedule_remove (await_marker a)
                 (\<lambda>r. case r of
                         Resume_value v \<Rightarrow> Return (Raised e, Forward_finished) s
                       | Resume_exception e' \<Rightarrow>
                           Return (if cls e' = StopAsyncIteration then Raised e
                                   else leave_generator (Raised e'),
                                   Forward_finished) s)))"

definition forward_resume :: "'o async_class \<Rightarrow> 'o \<Rightarrow> ginp \<Rightarrow> 's \<Rightarrow> (gen_out \<times> 'o forward, 's) comp" where
  "forward_resume C ob i s =
     (case i of
        Send x \<Rightarrow>
          (case asend_m C of
             Some f \<Rightarrow> forward_loop C ob (Call_asend x) s
           | None \<Rightarrow> forward_throw C ob (no_attribute ''asend'') s)
      | Throw e \<Rightarrow>
          if cls e = GeneratorExit then forward_close C ob e s
          else if is_Exception (cls e) then forward_throw C ob e s
          else Return (Raised e, Forward_finished) s)"

definition generator :: "'o \<Rightarrow> 'o forward" where
  "generator asyncgen = Forward_unstarted asyncgen"

text \<open>One \<^verbatim>\<open>next\<close>, \<^verbatim>\<open>send\<close> or \<^verbatim>\<open>throw\<close> of the consumer on the generator object; the
  consumer runs inside a task, so the step is a computation of that task.\<close>

fun generator_step :: "string \<Rightarrow> 'o async_class \<Rightarrow> 'o forward \<Rightarrow> ginp \<Rightarrow> 's
    \<Rightarrow> (gen_out \<times> 'o forward, 's) comp" where
  "generator_step current C (Forward_unstarted ob) (Send v) s =
     (if v \<noteq> PNone then
        Return (Raised (new_exn TypeError (PStr ''can't send non-None value to a just-started generator'')),
                Forward_unstarted ob) s
      else forward_start current C ob s)"
| "generator_step current C (Forward_unstarted ob) (Throw e) s =
     Return (leave_generator (Raised e), Forward_finished) s"
| "generator_step current C (Forward_suspended ob) i s = forward_resume C ob i s"
| "generator_step current C Forward_finished (Send v) s = Return (Returned PNone, Forward_finished) s"
| "generator_step current C Forward_finished (Throw e) s = Return (Raised e, Forward_finished) s"

text \<open>
  Plain iteration over the generator from inside a bridged task (the context variable
  reads True): each \<^verbatim>\<open>next\<close> publishes one awaitable, and the list gives, in order, what
  awaiting each of them results in. The result is what the loop got, and how the
  generator ended if it did.
\<close>

fun iterate :: "string \<Rightarrow> 'o async_class \<Rightarrow> 'o forward \<Rightarrow> resume list \<Rightarrow> 's
    \<Rightarrow> pyval list \<times> gen_out option" where
  "iterate current C g [] s = ([], None)"
| "iterate current C g (r # rs) s =
     (case advance True (generator_step current C g (Send PNone) s) of
        Head_suspend m k \<Rightarrow>
          (case advance True (k r) of
             Head_return (out, g') s' \<Rightarrow>
               (case out of
                  Yielded y \<Rightarrow> (case iterate current C g' rs s' of (ys, fin) \<Rightarrow> (y # ys, fin))
                | _ \<Rightarrow> ([], Some out))
           | Head_raise e s' \<Rightarrow> ([], Some (Raised e))
           | Head_suspend m' k' \<Rightarrow> ([], None))
      | Head_return (out, g') s' \<Rightarrow> ([], Some out)
      | Head_raise e s' \<Rightarrow> ([], Some (Raised e)))"

section \<open>The reverse iterator adapter\<close>

text \<open>
  The class of the object handed to \<^verbatim>\<open>async_generator\<close>: the attributes
  \<^verbatim>\<open>send\<close>, \<^verbatim>\<open>__next__\<close>, \<^verbatim>\<open>throw\<close> and \<^verbatim>\<open>close\<close> of \<^verbatim>\<open>type(generator)\<close>, each a
  callable taking the object first, or \<open>None\<close> when the class has no such attribute. The
  state of the object is the state \<open>'g\<close> the callables work on: a step that yields
  returns the value, a generator that finishes raises StopIteration with its result.
\<close>

record 'g generator_class =
  send_m :: "'g callable option"
  next_m :: "'g callable option"
  throw_m :: "'g callable option"
  close_m :: "'g callable option"

definition exc_args :: "exc_info \<Rightarrow> pyval list" where
  "exc_args x = [PClass (fst x), PExc (fst (snd x)), PTraceback (snd (snd x))]"

text \<open>The asynchronous generator object at rest, and what one \<^verbatim>\<open>asend\<close> or \<^verbatim>\<open>athrow\<close>
  gives: the value its awaitable completes with (the next item), the end of the iteration
  (StopAsyncIteration), or an exception.\<close>

datatype async_gen = Async_unstarted | Async_suspended | Async_finished

datatype ag_inp = Asend pyval | Athrow exn

datatype ag_out = Produced pyval | Async_exhausted | Failed exn

text \<open>The two places where the body awaits a bridge: the step of lines 187 to 192, inside
  the \<^verbatim>\<open>try\<close> of line 180, and the close of line 205, after which the GeneratorExit is
  raised again.\<close>

datatype site = Stepping | Closing exn

text \<open>A step of the asynchronous generator is done, or it is awaiting a bridge that has
  yielded a value to the outer driver.\<close>

datatype 'g progress = Done ag_out async_gen | Pending pyval site "'g bridge"

text \<open>A StopIteration or StopAsyncIteration that leaves the body of an asynchronous
  generator reaches the caller as a RuntimeError.\<close>

definition leave_async_generator :: "exn \<Rightarrow> exn" where
  "leave_async_generator e =
     (if cls e = StopAsyncIteration then
        Exn RuntimeError (PStr ''async generator raised StopAsyncIteration'') (Some e) []
      else if is_StopIteration (cls e) then
        Exn RuntimeError (PStr ''async generator raised StopIteration'') (Some e) []
      else e)"

text \<open>
  Lines 195 to 200:
  \<^verbatim>\<open>
  except StopAsyncIteration as ex:
      if not isinstance(ex.__cause__, StopIteration):
          raise  # Not an wrapped
      if ex.__cause__.value is not None:
          raise RuntimeError("generator returned a value other than None")
      return
  \<close>
\<close>

definition on_stop_async_iteration :: "exn \<Rightarrow> ag_out" where
  "on_stop_async_iteration ex =
     (case cause ex of
        None \<Rightarrow> Failed (leave_async_generator ex)
      | Some c \<Rightarrow>
          if \<not> is_StopIteration (cls c) then Failed (leave_async_generator ex)
          else if arg c \<noteq> PNone then
            Failed (new_exn RuntimeError (PStr ''generator returned a value other than None''))
          else Async_exhausted)"

text \<open>An exception raised by an \<^verbatim>\<open>await\<close> of the body.\<close>

definition body_exception :: "site \<Rightarrow> exn \<Rightarrow> ag_out" where
  "body_exception st e =
     (case st of
        Stepping \<Rightarrow>
          if cls e = StopAsyncIteration then on_stop_async_iteration e
          else Failed (leave_async_generator e)
      | Closing g \<Rightarrow> Failed (leave_async_generator e))"

text \<open>What the body does with the outcome of a step of the bridge it awaits: a value the
  bridge yields goes to the outer driver; the result of the bridge is the value of the
  \<^verbatim>\<open>await\<close>, which line 202 yields as the next item.\<close>

definition after_await :: "site \<Rightarrow> gen_out \<times> 'g bridge \<times> 'g world \<Rightarrow> 'g progress \<times> 'g world" where
  "after_await st r =
     (case r of
        (Yielded y, b, w) \<Rightarrow> (Pending y st b, w)
      | (Returned v, b, w) \<Rightarrow>
          (case st of
             Stepping \<Rightarrow> (Done (Produced v) Async_suspended, w)
           | Closing g \<Rightarrow> (Done (Failed g) Async_finished, w))
      | (Raised e, b, w) \<Rightarrow> (Done (body_exception st e) Async_finished, w))"

text \<open>
  Lines 180 to 194, one turn of the loop up to its \<^verbatim>\<open>await\<close>:
  \<^verbatim>\<open>
  try:
      if exception is None:
          try:
              m = type(generator).send
          except AttributeError:
              if value is not None:
                  raise
              value = await new_generator_coroutine(type(generator).__next__, generator)
          else:
              value = await new_generator_coroutine(m, generator, value)
      else:
          try:
              value = await new_generator_coroutine(type(generator).throw, generator, *exception)
          finally:
              exception = None
  \<close>
\<close>

definition async_iteration :: "'g generator_class \<Rightarrow> pyval \<Rightarrow> pyval \<Rightarrow> exc_info option \<Rightarrow> 'g world
    \<Rightarrow> 'g progress \<times> 'g world" where
  "async_iteration C gen v exc w =
     (case exc of
        None \<Rightarrow>
          (case send_m C of
             None \<Rightarrow>
               if v \<noteq> PNone then (Done (Failed (no_attribute ''send'')) Async_finished, w)
               else
                 (case next_m C of
                    None \<Rightarrow> (Done (Failed (no_attribute ''__next__'')) Async_finished, w)
                  | Some nx \<Rightarrow>
                      after_await Stepping
                        (bridge_step (new_generator_coroutine nx [gen] []) (Send PNone) w))
           | Some m \<Rightarrow>
               after_await Stepping
                 (bridge_step (new_generator_coroutine m [gen, v] []) (Send PNone) w))
      | Some x \<Rightarrow>
          (case throw_m C of
             None \<Rightarrow> (Done (Failed (no_attribute ''throw'')) Async_finished, w)
           | Some th \<Rightarrow>
               after_await Stepping
                 (bridge_step (new_generator_coroutine th (gen # exc_args x) []) (Send PNone) w)))"

definition async_generator :: async_gen where
  "async_generator = Async_unstarted"

text \<open>
  One \<^verbatim>\<open>asend\<close> (\<^verbatim>\<open>__anext__\<close> is \<^verbatim>\<open>asend(None)\<close>) or \<^verbatim>\<open>athrow\<close> on the asynchronous
  generator object, up to its next item, its end, or the first value the awaited bridge
  yields. On a finished generator the awaitable of \<^verbatim>\<open>asend\<close> raises StopAsyncIteration and
  the awaitable of \<^verbatim>\<open>athrow\<close> completes with None. Lines 201 to 209 resume the body at its
  \<^verbatim>\<open>yield\<close>:
  \<^verbatim>\<open>
  try:
      value = yield value
  except GeneratorExit:
      value = None
      await new_generator_coroutine(type(generator).close, generator)
      raise
  except Exception:
      value = None
      exception = sys.exc_info()
  \<close>
\<close>

fun async_generator_step :: "'g generator_class \<Rightarrow> pyval \<Rightarrow> async_gen \<Rightarrow> ag_inp \<Rightarrow> 'g world
    \<Rightarrow> 'g progress \<times> 'g world" where
  "async_generator_step C gen Async_unstarted (Asend v) w =
     (if v \<noteq> PNone then
        (Done (Failed (new_exn TypeError
           (PStr ''can't send non-None value to a just-started async generator''))) Async_unstarted, w)
      else async_iteration C gen PNone None w)"
| "async_generator_step C gen Async_unstarted (Athrow e) w =
     (Done (Failed (leave_async_generator e)) Async_finished, w)"
| "async_generator_step C gen Async_suspended (Asend v) w = async_iteration C gen v None w"
| "async_generator_step C gen Async_suspended (Athrow e) w =
     (if cls e = GeneratorExit then
        (case close_m C of
           None \<Rightarrow> (Done (Failed (no_attribute ''close'')) Async_finished, w)
         | Some cl \<Rightarrow>
             after_await (Closing e)
               (bridge_step (new_generator_coroutine cl [gen] []) (Send PNone) w))
      else if is_Exception (cls e) then async_iteration C gen PNone (Some (sys_exc_info e)) w
      else (Done (Failed e) Async_finished, w))"
| "async_generator_step C gen Async_finished (Asend v) w = (Done Async_exhausted Async_finished, w)"
| "async_generator_step C gen Async_finished (Athrow e) w = (Done (Produced PNone) Async_finished, w)"


text \<open>The inner awaitable a suspended bridge is driving, \<^verbatim>\<open>None\<close> when there is none.\<close>

definition pending_inner :: "'s bridge \<Rightarrow> pyval" where
  "pending_inner b = (case b of Suspended l \<Rightarrow> wait_for l | _ \<Rightarrow> PNone)"

text \<open>What the except clauses of lines 111 to 117 make of an exception that ends the
  task.\<close>

definition task_exception :: "exn \<Rightarrow> gen_out" where
  "task_exception e =
     (if cls e = TaskletStopIteration then Returned (arg e)
      else if is_StopIteration (cls e) then Raised (Exn StopAsyncIteration PNone (Some e) [])
      else Raised e)"

section \<open>Concrete inputs\<close>

text \<open>An exception of a user-defined class, with a traceback.\<close>

definition demo_error :: exn where
  "demo_error = Exn (UserException ''ValueError'') (PStr ''bad'') None [1, 2]"

definition stop_iteration :: exn where
  "stop_iteration = Exn StopIteration (PInt 3) None [4]"



text \<open>A world with one awaitable, at address 0, outside any bridged task.\<close>

definition world_with :: "aw option \<Rightarrow> unit world" where
  "world_with a = \<lparr>heap = (\<lambda>n. if n = 0 then a else None), flag = False, trace = [],
     next_tid = 0, env = ()\<rparr>"

definition the_awaitable :: pyval where
  "the_awaitable = PObj Generator_type 0"



text \<open>\<^verbatim>\<open>def g(): yield ("await", 1)\<close>\<close>

definition tagged :: aw where
  "tagged = Aw (\<lambda>i. Inr (PTuple [PStr ''await'', PInt 1], Aw (\<lambda>i. Inl (new_exn StopIteration PNone))))"

text \<open>\<^verbatim>\<open>def f(): return await_coroutine(a)\<close> for the awaitable at address 0.\<close>

definition awaiting_callable :: "unit callable" where
  "awaiting_callable = (\<lambda>args kwargs s. await_coroutine ''main'' the_awaitable s)"

text \<open>\<^verbatim>\<open>def f(): return stackless.schedule_remove(5)\<close>\<close>

definition publishing_callable :: "unit callable" where
  "publishing_callable = (\<lambda>args kwargs s. schedule_remove (PInt 5) s)"

text \<open>The local variables of a bridge whose task is paused with continuation \<open>k\<close>.\<close>

definition demo_locals :: "pyval \<Rightarrow> (resume \<Rightarrow> 's task) \<Rightarrow> 's locals" where
  "demo_locals inner k =
     \<lparr>tasklet = \<lparr>tid = 0, alive = True, paused = True, scheduled = False, tempval = PNone,
                  pending = None, frame = Blocked k, raised = None\<rparr>,
      wait_for = inner, val = PNone, exception = None\<rparr>"


text \<open>The value a suspended computation has published.\<close>

definition published :: "('r, 's) head \<Rightarrow> pyval option" where
  "published h = (case h of Head_suspend v k \<Rightarrow> Some v | _ \<Rightarrow> None)"

text \<open>A call on the source that returns an awaitable.\<close>

definition returns_awaitable :: "(exn + pyval) \<times> 'o \<Rightarrow> bool" where
  "returns_awaitable r = (case fst r of Inr a \<Rightarrow> True | Inl e \<Rightarrow> False)"

definition awaitable_of :: "(exn + pyval) \<times> 'o \<Rightarrow> pyval" where
  "awaitable_of r = (case fst r of Inr a \<Rightarrow> a | Inl e \<Rightarrow> PNone)"

definition stop_async_iteration :: exn where
  "stop_async_iteration = new_exn StopAsyncIteration PNone"

text \<open>
  Two sources whose state counts the calls made on them and whose n-th call returns the
  coroutine object at address n. The first is an asynchronous iterator with
  \<^verbatim>\<open>__aiter__\<close> and \<^verbatim>\<open>__anext__\<close> alone, the second has the methods of an asynchronous
  generator.
\<close>

definition nth_awaitable :: "nat \<Rightarrow> (exn + pyval) \<times> nat" where
  "nth_awaitable n = (Inr (PObj Coroutine_type n), Suc n)"

definition plain_async_iterator :: "nat async_class" where
  "plain_async_iterator =
     \<lparr>aiter_m = Inr, anext_m = Some nth_awaitable, asend_m = None, athrow_m = None,
      aclose_m = None\<rparr>"

definition async_generator_class :: "nat async_class" where
  "async_generator_class =
     \<lparr>aiter_m = Inr, anext_m = Some nth_awaitable, asend_m = Some (\<lambda>n v. nth_awaitable n),
      athrow_m = Some (\<lambda>n x. nth_awaitable n), aclose_m = Some nth_awaitable\<rparr>"



text \<open>
  Two wrapped objects whose state counts the steps made. The first is an iterator with
  \<^verbatim>\<open>__next__\<close> alone, which gives 0, 1, 2 and so on. The second is a generator that
  yields what it is sent until it is sent 0, and then returns its count.
\<close>

definition counter_class :: "nat generator_class" where
  "counter_class =
     \<lparr>send_m = None,
      next_m = Some (\<lambda>args kwargs n. Return (PInt (int n)) (Suc n)),
      throw_m = None, close_m = None\<rparr>"



definition counter_world :: "nat \<Rightarrow> nat world" where
  "counter_world n = \<lparr>heap = (\<lambda>a. None), flag = False, trace = [], next_tid = 0, env = n\<rparr>"

definition the_generator :: pyval where
  "the_generator = PObj Other_type 1"


text \<open>
  \<^verbatim>\<open>
  def consumer():
      items = []
      for x in generator(source):
          items.append(x)
      return tuple(items)
  \<close>
  with a bound on the number of turns of the loop, for a source whose object is in state 0.
\<close>

primrec consume :: "nat \<Rightarrow> 'o async_class \<Rightarrow> 'o forward \<Rightarrow> pyval list \<Rightarrow> 's \<Rightarrow> 's task" where
  "consume 0 C g items s = Raise (new_exn RuntimeError (PStr ''too many items'')) s"
| "consume (Suc n) C g items s =
     bind (generator_step ''consumer'' C g (Send PNone) s)
       (\<lambda>r s'. case fst r of
                  Yielded x \<Rightarrow> consume n C (snd r) (items @ [x]) s'
                | Returned v \<Rightarrow> Return (PTuple items) s'
                | Raised e \<Rightarrow> Raise e s')"

definition consumer :: "nat async_class \<Rightarrow> unit callable" where
  "consumer C = (\<lambda>args kwargs s. consume 10 C (generator 0) [] s)"

text \<open>A coroutine that returns \<open>v\<close> at once, and one that raises StopAsyncIteration at
  once; the world whose coroutines at addresses 0, 1 and 2 return 1, 2 and 3 and whose
  other coroutines raise StopAsyncIteration.\<close>

definition returning :: "pyval \<Rightarrow> aw" where
  "returning v = Aw (\<lambda>i. Inl (new_exn StopIteration v))"

definition exhausted :: aw where
  "exhausted = Aw (\<lambda>i. Inl (new_exn StopAsyncIteration PNone))"

definition one_two_three :: "unit world" where
  "one_two_three =
     \<lparr>heap = (\<lambda>n. if n = 0 then Some (returning (PInt 1))
                   else if n = 1 then Some (returning (PInt 2))
                   else if n = 2 then Some (returning (PInt 3))
                   else Some exhausted),
      flag = False, trace = [], next_tid = 0, env = ()\<rparr>"

text \<open>A coroutine that raises the exception \<open>demo_error\<close> at its first step.\<close>

definition failing :: aw where
  "failing = Aw (\<lambda>i. Inl demo_error)"

text \<open>What remains of the task of \<^verbatim>\<open>def f(): return stackless.schedule_remove(5)\<close>, or of
  \<^verbatim>\<open>def f(): return await_coroutine(a)\<close>, once it has paused: it returns the value it is
  resumed with and lets out an exception raised in it.\<close>

definition passing :: "resume \<Rightarrow> unit task" where
  "passing r =
     bind (case r of Resume_value x \<Rightarrow> Return x () | Resume_exception e \<Rightarrow> Raise e ())
       raise_TaskletStopIteration"

text \<open>\<^verbatim>\<open>def f(): await_coroutine(a); raise StopIteration(3)\<close> for the awaitable at address 0.\<close>

definition exhausting_callable :: "unit callable" where
  "exhausting_callable =
     (\<lambda>args kwargs s. bind (await_coroutine ''main'' the_awaitable s) (\<lambda>v. Raise stop_iteration))"




section \<open>Properties of the bridge\<close>

lemmas bridge_eval = new_generator_coroutine_def start_body_def spawn_def
  drive_inner_def run_task_def run_as_coroutine_tasklet_def
  stackless_run_def ended_def log_def leave_generator_def insert_def throw_pending_def
  Let_def

lemma run_entry_applies:
  "run_entry [Kwargs_arg kwargs, Args_arg args, Callable_arg callable] s =
   bind (callable args kwargs s) raise_TaskletStopIteration"
  by (simp add: run_entry_def pop_def)

lemma advance_bind_return:
  "advance b c = Head_return v s \<Longrightarrow> advance b (bind c f) = advance b (f v s)"
  by (induction c) auto

lemma advance_bind_raise:
  "advance b c = Head_raise e s \<Longrightarrow> advance b (bind c f) = Head_raise e s"
  by (induction c) auto


text \<open>
  C1. A callable that simply returns a value (which may depend on its arguments and on
  the state it finds) is bridged to a generator, and to the coroutine of
  \<^verbatim>\<open>new_coroutine\<close>, whose first step ends with that value as its result: the callable
  was applied to the positional and keyword arguments given to the bridge, which
  \<^verbatim>\<open>_run\<close> pops in the order callable, positional, keyword.
\<close>

theorem round_trip_value:
  "fst (bridge_step (new_generator_coroutine (\<lambda>a k s. Return (f a k s) (g a k s)) args kwargs)
          (Send PNone) w) = Returned (f args kwargs (env w)) \<and>
   fst (coro_step (new_coroutine (\<lambda>a k s. Return (f a k s) (g a k s)) args kwargs)
          (Send PNone) w) = Returned (f args kwargs (env w)) \<and>
   run_entry [Kwargs_arg kwargs, Args_arg args, Callable_arg callable] s =
     bind (callable args kwargs s) raise_TaskletStopIteration"
  by (simp add: bridge_eval loop.simps run_entry_applies raise_TaskletStopIteration_def new_exn_def
      new_coroutine_def as_coroutinefunction_def awaiting_def)

lemma leave_generator_simps [simp]:
  "leave_generator (Yielded v) = Yielded v"
  "leave_generator (Returned v) = Returned v"
  "\<not> is_StopIteration (cls e) \<Longrightarrow> leave_generator (Raised e) = Raised e"
  by (simp_all add: leave_generator_def)

lemma thrown_sys_exc_info [simp]: "thrown (sys_exc_info e) = e"
  by (cases e) (simp add: thrown_def sys_exc_info_def with_traceback_def)

lemma fst_bridge_start:
  "fst (bridge_step (new_generator_coroutine c a k) (Send PNone) w) =
   leave_generator (fst (start_body c a k w))"
  by (simp add: new_generator_coroutine_def split: prod.splits)

lemma fst_bridge_send:
  "fst (bridge_step (Suspended l) (Send x) w) = leave_generator (fst (loop (l\<lparr>val := x\<rparr>) w))"
  by (simp add: at_yield_def split: prod.splits)

lemma fst_coro_start:
  "fst (coro_step (new_coroutine c a k) (Send PNone) w) =
   fst (bridge_step (new_generator_coroutine c a k) (Send PNone) w)"
  by (simp add: new_coroutine_def as_coroutinefunction_def awaiting_def
      split: prod.splits gen_out.splits)

lemma start_raise:
  assumes "advance True (callable args kwargs (env w)) = Head_raise e s'"
  shows "fst (start_body callable args kwargs w) = task_exception e"
  using advance_bind_raise[OF assms, of raise_TaskletStopIteration]
  by (simp add: bridge_eval loop.simps run_entry_applies task_exception_def)

lemma start_return:
  assumes "advance True (callable args kwargs (env w)) = Head_return v s'"
  shows "fst (start_body callable args kwargs w) = Returned v"
  using advance_bind_return[OF assms, of raise_TaskletStopIteration]
  by (simp add: bridge_eval loop.simps run_entry_applies raise_TaskletStopIteration_def new_exn_def)

lemma resume_raise:
  assumes "running_task l k" "advance True (k (Resume_value x)) = Head_raise e s'"
  shows "fst (loop (l\<lparr>val := x\<rparr>) w) = task_exception e"
  using assms
  by (simp add: bridge_eval loop.simps running_task_def blocked_on_def task_exception_def)

lemma bridge_start_raise:
  assumes "advance True (callable args kwargs (env w)) = Head_raise e s'"
  shows "fst (bridge_step (new_generator_coroutine callable args kwargs) (Send PNone) w) =
         leave_generator (task_exception e)"
  using start_raise[of callable args kwargs w e s'] assms by (simp add: fst_bridge_start)

lemma bridge_start_return:
  assumes "advance True (callable args kwargs (env w)) = Head_return v s'"
  shows "fst (bridge_step (new_generator_coroutine callable args kwargs) (Send PNone) w) =
         Returned v"
  using start_return[of callable args kwargs w v s'] assms by (simp add: fst_bridge_start)

lemma stackless_run_raised:
  "stackless_run t w = (r, t', w') \<Longrightarrow> raised t = None \<Longrightarrow> raised t' = r"
  by (auto simp: stackless_run_def Let_def ended_def
      split: if_splits head.splits)

lemma run_as_coroutine_tasklet_raised:
  "run_as_coroutine_tasklet t w = (r, t', w') \<Longrightarrow> raised t = None \<Longrightarrow> raised t' = r"
  by (auto simp: run_as_coroutine_tasklet_def Let_def split: prod.splits
      dest: stackless_run_raised)

lemma run_task_raised:
  assumes "run_task l w = (r, w')" "raised (tasklet l) = None"
  shows "case r of
           Exit out t \<Rightarrow> (\<forall>e. raised t = Some e \<longrightarrow> out = task_exception e)
         | Loop l2 \<Rightarrow> raised (tasklet l2) = None
         | To_yield l2 \<Rightarrow> raised (tasklet l2) = None"
  using assms
  apply (simp add: run_task_def Let_def split: if_splits option.splits prod.splits)
       apply (auto simp: insert_def throw_pending_def task_exception_def
      dest!: run_as_coroutine_tasklet_raised)
  done

lemma at_yield_raised:
  "at_yield l i w = (Inl (out, t), w') \<Longrightarrow> raised t = raised (tasklet l)"
  by (auto simp: at_yield_def Let_def kill_def split: ginp.splits if_splits prod.splits option.splits)

lemma at_yield_tasklet:
  "at_yield l i w = (Inr l1, w') \<Longrightarrow> tasklet l1 = tasklet l"
  by (auto simp: at_yield_def Let_def split: ginp.splits if_splits prod.splits option.splits)

lemma loop_task_raised:
  "raised (tasklet l) = None \<Longrightarrow> task_raised (fst (snd (loop l w))) = Some e \<Longrightarrow>
   fst (loop l w) = task_exception e"
proof (induction l w rule: loop.induct)
  case (1 l w)
  obtain d w1 where d: "drive_inner l w = (d, w1)" by (cases "drive_inner l w")
  show ?case
  proof (cases d)
    case (Inl x)
    with d 1(2,3) show ?thesis
      by (simp add: loop.simps[of l w] task_raised_def bridge_task_def)
  next
    case (Inr l1)
    with d have tl: "tasklet l1 = tasklet l" by (auto dest: drive_inner_tasklet)
    show ?thesis
    proof (cases "wait_for l1 = PNone")
      case False
      with d Inr tl 1(2,3) show ?thesis
        by (simp add: loop.simps[of l w] task_raised_def bridge_task_def)
    next
      case True
      obtain r w2 where rt: "run_task l1 w1 = (r, w2)" by (cases "run_task l1 w1")
      from run_task_raised[OF rt] tl 1(2) have rr:
        "case r of
           Exit out t \<Rightarrow> (\<forall>e. raised t = Some e \<longrightarrow> out = task_exception e)
         | Loop l2 \<Rightarrow> raised (tasklet l2) = None
         | To_yield l2 \<Rightarrow> raised (tasklet l2) = None" by simp
      show ?thesis
      proof (cases r)
        case (Exit out t)
        with d Inr True rt rr 1(3) show ?thesis
          by (simp add: loop.simps[of l w] task_raised_def bridge_task_def)
      next
        case (Loop l2)
        with rr have r2: "raised (tasklet l2) = None" by simp
        from d Inr True rt Loop have eq: "loop l w = loop l2 w2"
          by (simp add: loop.simps[of l w])
        from 1(1)[OF d[symmetric] Inr True rt[symmetric] Loop r2] 1(3) eq
        show ?thesis by simp
      next
        case (To_yield l2)
        with d Inr True rt rr 1(3) show ?thesis
          by (simp add: loop.simps[of l w] task_raised_def bridge_task_def)
      qed
    qed
  qed
qed

lemma bridge_task_raised:
  assumes "task_raised b = None" "task_raised (fst (snd (bridge_step b i w))) = Some e"
  shows "fst (bridge_step b i w) = leave_generator (task_exception e)"
proof (cases b)
  case (Unstarted callable args kwargs)
  show ?thesis
  proof (cases i)
    case (Send v)
    show ?thesis
    proof (cases "v = PNone")
      case True
      obtain t w1 where sp: "spawn (run_entry [Kwargs_arg kwargs, Args_arg args, Callable_arg callable]) w = (t, w1)"
        by (cases "spawn (run_entry [Kwargs_arg kwargs, Args_arg args, Callable_arg callable]) w")
      then have rt: "raised t = None" by (auto simp: spawn_def)
      let ?l = "\<lparr>tasklet = t, wait_for = PNone, val = PNone, exception = None\<rparr>"
      have st: "start_body callable args kwargs w = loop ?l w1"
        using sp by (simp add: start_body_def)
      from assms(2) have "task_raised (fst (snd (loop ?l w1))) = Some e"
        using Unstarted Send True st by (simp split: prod.splits)
      then have "fst (loop ?l w1) = task_exception e"
        using loop_task_raised[of ?l w1 e] rt by simp
      then show ?thesis using Unstarted Send True st by (auto split: prod.splits)
    next
      case False
      with assms Unstarted Send show ?thesis by (simp add: task_raised_def bridge_task_def)
    qed
  next
    case (Throw x)
    with assms Unstarted show ?thesis by (simp add: task_raised_def bridge_task_def)
  qed
next
  case (Suspended l)
  with assms(1) have r0: "raised (tasklet l) = None" by (simp add: task_raised_def bridge_task_def)
  obtain y w1 where ay: "at_yield l i w = (y, w1)" by (cases "at_yield l i w")
  show ?thesis
  proof (cases y)
    case (Inl p)
    obtain out t where p: "p = (out, t)" by (cases p)
    from ay Inl p have "raised t = None" using at_yield_raised[of l i w out t w1] r0 by simp
    with assms(2) Suspended ay Inl p show ?thesis by (simp add: task_raised_def bridge_task_def)
  next
    case (Inr l1)
    with ay have "tasklet l1 = tasklet l" by (auto dest: at_yield_tasklet)
    with r0 have r1: "raised (tasklet l1) = None" by simp
    from assms(2) have "task_raised (fst (snd (loop l1 w1))) = Some e"
      using Suspended ay Inr by (simp split: prod.splits)
    then have "fst (loop l1 w1) = task_exception e"
      using loop_task_raised[of l1 w1 e] r1 by simp
    then show ?thesis using Suspended ay Inr by (auto split: prod.splits)
  qed
next
  case (Finished t)
  with assms show ?thesis by (cases i) (simp_all add: task_raised_def bridge_task_def)
qed

lemma fst_awaiting: "fst (awaiting r) = fst r"
  by (simp add: awaiting_def split: prod.splits gen_out.splits)

lemma throw_raise:
  assumes "running_task l k" "is_Exception (cls x)"
    "advance True (k (Resume_exception x)) = Head_raise e s'"
  shows "fst (bridge_step (Suspended l) (Throw x) w) = leave_generator (task_exception e)"
proof -
  from assms(2) have "cls x \<noteq> GeneratorExit" by auto
  with assms show ?thesis
    by (simp add: at_yield_def bridge_eval loop.simps running_task_def blocked_on_def
        task_exception_def)
qed

lemma send_raise:
  assumes "running_task l k" "advance True (k (Resume_value x)) = Head_raise e s'"
  shows "fst (bridge_step (Suspended l) (Send x) w) = leave_generator (task_exception e)"
  using resume_raise[OF assms, of w] by (simp add: fst_bridge_send del: bridge_step.simps)

lemma inner_done_raise:
  assumes "driving_inner l k ty n" "heap w n = Some a" "deliverable i" "aw_step a i = Inl r"
    "is_StopIteration (cls r)" "advance True (k (Resume_value (arg r))) = Head_raise e s'"
  shows "fst (bridge_step (Suspended l) i w) = leave_generator (task_exception e)"
proof (cases i)
  case (Send v)
  then show ?thesis using assms
    by (simp add: at_yield_def bridge_eval loop.simps driving_inner_def blocked_on_def
        obj_send_def step_object_def inner_result_def task_exception_def)
next
  case (Throw x)
  with assms have ex: "is_Exception (cls x)" "cls x \<noteq> GeneratorExit" by auto
  show ?thesis using assms ex Throw
    by (simp add: at_yield_def bridge_eval loop.simps driving_inner_def blocked_on_def
        obj_throw_def step_object_def inner_result_def task_exception_def)
qed

lemma inner_failed_raise:
  assumes "driving_inner l k ty n" "heap w n = Some a" "deliverable i" "aw_step a i = Inl r"
    "\<not> is_StopIteration (cls r)" "is_Exception (cls r)"
    "advance True (k (Resume_exception r)) = Head_raise e s'"
  shows "fst (bridge_step (Suspended l) i w) = leave_generator (task_exception e)"
proof (cases i)
  case (Send v)
  then show ?thesis using assms
    by (simp add: at_yield_def bridge_eval loop.simps driving_inner_def blocked_on_def
        obj_send_def step_object_def inner_result_def task_exception_def)
next
  case (Throw x)
  with assms have ex: "is_Exception (cls x)" "cls x \<noteq> GeneratorExit" by auto
  show ?thesis using assms ex Throw
    by (simp add: at_yield_def bridge_eval loop.simps driving_inner_def blocked_on_def
        obj_throw_def step_object_def inner_result_def task_exception_def)
qed

lemma close_task_raised:
  assumes "cls x = GeneratorExit" "task_raised b = None"
  shows "task_raised (fst (snd (bridge_step b (Throw x) w))) = None"
proof (cases b)
  case (Unstarted callable args kwargs)
  then show ?thesis by (simp add: task_raised_def bridge_task_def)
next
  case (Suspended l)
  obtain y w1 where ay: "at_yield l (Throw x) w = (y, w1)" by (cases "at_yield l (Throw x) w")
  from ay assms(1) obtain out t where y: "y = Inl (out, t)"
    by (auto simp: at_yield_def Let_def split: prod.splits option.splits if_splits)
  from ay y have "raised t = raised (tasklet l)" by (auto dest: at_yield_raised)
  with assms(2) Suspended ay y show ?thesis by (simp add: task_raised_def bridge_task_def)
next
  case (Finished t)
  with assms show ?thesis by (simp add: task_raised_def bridge_task_def)
qed

lemma coro_task_raised:
  assumes "task_raised b = None" "task_raised (fst (snd (bridge_step b i w))) = Some e"
  shows "fst (coro_step (Coro_awaiting b) i w) = leave_generator (task_exception e)"
proof (cases i)
  case (Send v)
  with bridge_task_raised[OF assms] show ?thesis by (simp add: fst_awaiting)
next
  case (Throw x)
  with assms close_task_raised[of x b w] have "cls x \<noteq> GeneratorExit" by auto
  with Throw bridge_task_raised[OF assms] show ?thesis by (simp add: fst_awaiting)
qed

text \<open>
  C2. An exception \<open>e\<close> whose class is not StopIteration or a subclass ends the task. Then
  the step of the bridge raises the same exception object, traceback included, and so does
  the coroutine of \<^verbatim>\<open>new_coroutine\<close>. This holds wherever the task was when it was run:
  at its first run; resumed with a value sent by the outer driver; resumed with an
  exception the outer driver threw in (lines 101 to 105); resumed with the result of the
  inner awaitable it was waiting for, or with the exception that awaitable raised (lines
  77 to 84). It holds for every step of the bridge in which the task ends with \<open>e\<close>,
  however many times the task was run in that step.
\<close>

theorem round_trip_exception:
  "\<not> is_StopIteration (cls e) \<Longrightarrow>
   (advance True (callable args kwargs (env w)) = Head_raise e s' \<longrightarrow>
      fst (bridge_step (new_generator_coroutine callable args kwargs) (Send PNone) w) = Raised e \<and>
      fst (coro_step (new_coroutine callable args kwargs) (Send PNone) w) = Raised e) \<and>
   (running_task l k \<and> advance True (k (Resume_value x)) = Head_raise e s' \<longrightarrow>
      fst (bridge_step (Suspended l) (Send x) w) = Raised e) \<and>
   (running_task l k \<and> is_Exception (cls ex) \<and>
    advance True (k (Resume_exception ex)) = Head_raise e s' \<longrightarrow>
      fst (bridge_step (Suspended l) (Throw ex) w) = Raised e) \<and>
   (driving_inner l k ty n \<and> heap w n = Some a \<and> deliverable i \<and> aw_step a i = Inl r \<and>
    is_StopIteration (cls r) \<and> advance True (k (Resume_value (arg r))) = Head_raise e s' \<longrightarrow>
      fst (bridge_step (Suspended l) i w) = Raised e) \<and>
   (driving_inner l k ty n \<and> heap w n = Some a \<and> deliverable i \<and> aw_step a i = Inl r \<and>
    \<not> is_StopIteration (cls r) \<and> is_Exception (cls r) \<and>
    advance True (k (Resume_exception r)) = Head_raise e s' \<longrightarrow>
      fst (bridge_step (Suspended l) i w) = Raised e) \<and>
   (task_raised b = None \<and> task_raised (fst (snd (bridge_step b i w))) = Some e \<longrightarrow>
      fst (bridge_step b i w) = Raised e \<and>
      fst (coro_step (Coro_awaiting b) i w) = Raised e) \<and>
   (task_raised (fst (snd (bridge_step (new_generator_coroutine callable args kwargs)
       (Send PNone) w))) = Some e \<longrightarrow>
      fst (coro_step (new_coroutine callable args kwargs) (Send PNone) w) = Raised e)"
proof (intro conjI impI)
  assume ne: "\<not> is_StopIteration (cls e)"
  then have te: "leave_generator (task_exception e) = Raised e"
    by (auto simp: task_exception_def)
  {
    assume h: "advance True (callable args kwargs (env w)) = Head_raise e s'"
    show "fst (bridge_step (new_generator_coroutine callable args kwargs) (Send PNone) w) = Raised e"
      using bridge_start_raise[of callable args kwargs w e s'] h te by simp
    then show "fst (coro_step (new_coroutine callable args kwargs) (Send PNone) w) = Raised e"
      by (simp add: fst_coro_start)
  }
  {
    assume h: "running_task l k \<and> advance True (k (Resume_value x)) = Head_raise e s'"
    then show "fst (bridge_step (Suspended l) (Send x) w) = Raised e"
      using send_raise[of l k x e s' w] te by simp
  }
  {
    assume h: "running_task l k \<and> is_Exception (cls ex) \<and>
      advance True (k (Resume_exception ex)) = Head_raise e s'"
    then show "fst (bridge_step (Suspended l) (Throw ex) w) = Raised e"
      using throw_raise[of l k ex e s' w] te by simp
  }
  {
    assume h: "driving_inner l k ty n \<and> heap w n = Some a \<and> deliverable i \<and> aw_step a i = Inl r \<and>
      is_StopIteration (cls r) \<and> advance True (k (Resume_value (arg r))) = Head_raise e s'"
    then show "fst (bridge_step (Suspended l) i w) = Raised e"
      using inner_done_raise[of l k ty n w a i r e s'] te by simp
  }
  {
    assume h: "driving_inner l k ty n \<and> heap w n = Some a \<and> deliverable i \<and> aw_step a i = Inl r \<and>
      \<not> is_StopIteration (cls r) \<and> is_Exception (cls r) \<and>
      advance True (k (Resume_exception r)) = Head_raise e s'"
    then show "fst (bridge_step (Suspended l) i w) = Raised e"
      using inner_failed_raise[of l k ty n w a i r e s'] te by simp
  }
  {
    assume h: "task_raised b = None \<and> task_raised (fst (snd (bridge_step b i w))) = Some e"
    then show "fst (bridge_step b i w) = Raised e"
      using bridge_task_raised[of b i w e] te by simp
    from h show "fst (coro_step (Coro_awaiting b) i w) = Raised e"
      using coro_task_raised[of b i w e] te by simp
  }
  {
    assume h: "task_raised (fst (snd (bridge_step (new_generator_coroutine callable args kwargs)
       (Send PNone) w))) = Some e"
    have "task_raised (new_generator_coroutine callable args kwargs) = None"
      by (simp add: new_generator_coroutine_def task_raised_def bridge_task_def)
    then have "fst (bridge_step (new_generator_coroutine callable args kwargs) (Send PNone) w) = Raised e"
      using bridge_task_raised[of "new_generator_coroutine callable args kwargs" "Send PNone" w e] h te
      by simp
    then show "fst (coro_step (new_coroutine callable args kwargs) (Send PNone) w) = Raised e"
      by (simp add: fst_coro_start)
  }
qed

theorem round_trip_exception_witness:
  "\<not> is_StopIteration (cls demo_error) \<and>
   advance True (Raise demo_error () :: unit task) = Head_raise demo_error () \<and>
   fst (bridge_step (new_generator_coroutine (\<lambda>a k s. Raise demo_error s) [] []) (Send PNone)
          (world_with None)) = Raised demo_error \<and>
   fst (coro_step (new_coroutine (\<lambda>a k s. Raise demo_error s) [] []) (Send PNone)
          (world_with None)) = Raised demo_error \<and>
   running_task (demo_locals PNone (\<lambda>r. Raise demo_error ())) (\<lambda>r. Raise demo_error ()) \<and>
   fst (bridge_step (Suspended (demo_locals PNone (\<lambda>r. Raise demo_error ()))) (Send (PInt 1))
          (world_with None)) = Raised demo_error \<and>
   running_task (demo_locals PNone passing) passing \<and> is_Exception (cls demo_error) \<and>
   advance True (passing (Resume_exception demo_error)) = Head_raise demo_error () \<and>
   fst (bridge_step (Suspended (demo_locals PNone passing)) (Throw demo_error)
          (world_with None)) = Raised demo_error \<and>
   driving_inner (demo_locals the_awaitable (\<lambda>r. Raise demo_error ())) (\<lambda>r. Raise demo_error ())
     Generator_type 0 \<and>
   aw_step (returning (PInt 1)) (Send PNone) = Inl (new_exn StopIteration (PInt 1)) \<and>
   fst (bridge_step (Suspended (demo_locals the_awaitable (\<lambda>r. Raise demo_error ()))) (Send PNone)
          (world_with (Some (returning (PInt 1))))) = Raised demo_error \<and>
   driving_inner (demo_locals the_awaitable passing) passing Generator_type 0 \<and>
   aw_step failing (Send PNone) = Inl demo_error \<and>
   fst (bridge_step (Suspended (demo_locals the_awaitable passing)) (Send PNone)
          (world_with (Some failing))) = Raised demo_error \<and>
   task_raised (fst (snd (bridge_step (new_generator_coroutine awaiting_callable [] [])
          (Send PNone) (world_with (Some failing))))) = Some demo_error \<and>
   fst (bridge_step (new_generator_coroutine awaiting_callable [] []) (Send PNone)
          (world_with (Some failing))) = Raised demo_error \<and>
   fst (coro_step (new_coroutine awaiting_callable [] []) (Send PNone)
          (world_with (Some failing))) = Raised demo_error \<and>
   task_raised (Suspended (demo_locals PNone passing)) = None \<and>
   task_raised (fst (snd (bridge_step (Suspended (demo_locals PNone passing)) (Throw demo_error)
          (world_with None)))) = Some demo_error \<and>
   fst (coro_step (Coro_awaiting (Suspended (demo_locals PNone passing))) (Throw demo_error)
          (world_with None)) = Raised demo_error"
  using round_trip_exception[of demo_error "\<lambda>a k s. Raise demo_error s" "[]" "[]" "world_with None" "()"
      "demo_locals PNone (\<lambda>r. Raise demo_error ())" "\<lambda>r. Raise demo_error ()" "PInt 1"
      demo_error Generator_type 0 failing "Send PNone" demo_error
      "new_generator_coroutine (\<lambda>a k s. Raise demo_error s) [] []"]
    round_trip_exception[of demo_error awaiting_callable "[]" "[]" "world_with None" "()"
      "demo_locals PNone passing" passing "PInt 1"
      demo_error Generator_type 0 failing "Throw demo_error" demo_error
      "Suspended (demo_locals PNone passing)"]
    round_trip_exception[of demo_error awaiting_callable "[]" "[]"
      "world_with (Some (returning (PInt 1)))" "()"
      "demo_locals the_awaitable (\<lambda>r. Raise demo_error ())" "\<lambda>r. Raise demo_error ()" "PInt 1"
      demo_error Generator_type 0 "returning (PInt 1)" "Send PNone" "new_exn StopIteration (PInt 1)"
      "new_generator_coroutine awaiting_callable [] []"]
    round_trip_exception[of demo_error awaiting_callable "[]" "[]"
      "world_with (Some failing)" "()"
      "demo_locals the_awaitable passing" passing "PInt 1"
      demo_error Generator_type 0 failing "Send PNone" demo_error
      "new_generator_coroutine awaiting_callable [] []"]
  by (simp add: demo_error_def world_with_def demo_locals_def running_task_def driving_inner_def
      blocked_on_def passing_def failing_def returning_def new_exn_def the_awaitable_def
      awaiting_callable_def await_coroutine_def schedule_remove_def await_marker_def
      task_raised_def bridge_task_def at_yield_def sys_exc_info_def thrown_def with_traceback_def
      bridge_eval loop.simps run_entry_applies obj_send_def obj_throw_def step_object_def
      inner_result_def raise_TaskletStopIteration_def new_coroutine_def as_coroutinefunction_def
      awaiting_def)

text \<open>
  C4. A plain StopIteration \<open>e\<close> ends the task. Then the step of the bridge raises
  StopAsyncIteration whose \<^verbatim>\<open>__cause__\<close> is \<open>e\<close>, and so does the coroutine of
  \<^verbatim>\<open>new_coroutine\<close>, wherever the task was when it was run: at its first run; resumed with
  a value or with an exception thrown in by the outer driver; resumed with the result of the
  inner awaitable it was waiting for, or with the exception that awaitable raised; and in
  every step of the bridge in which the task ends with \<open>e\<close>. A callable that returns \<open>v\<close>
  makes the step return \<open>v\<close>, and a task that ends with the TaskletStopIteration of
  \<^verbatim>\<open>_run\<close> makes the step return the value it carries: the two ends of a task stay apart.
\<close>

theorem exhaustion_remapping:
  "cls e = StopIteration \<Longrightarrow>
   (advance True (callable args kwargs (env w)) = Head_raise e s' \<longrightarrow>
      fst (bridge_step (new_generator_coroutine callable args kwargs) (Send PNone) w) =
        Raised (Exn StopAsyncIteration PNone (Some e) []) \<and>
      fst (coro_step (new_coroutine callable args kwargs) (Send PNone) w) =
        Raised (Exn StopAsyncIteration PNone (Some e) [])) \<and>
   (running_task l k \<and> advance True (k (Resume_value x)) = Head_raise e s' \<longrightarrow>
      fst (bridge_step (Suspended l) (Send x) w) =
        Raised (Exn StopAsyncIteration PNone (Some e) [])) \<and>
   (running_task l k \<and> is_Exception (cls ex) \<and>
    advance True (k (Resume_exception ex)) = Head_raise e s' \<longrightarrow>
      fst (bridge_step (Suspended l) (Throw ex) w) =
        Raised (Exn StopAsyncIteration PNone (Some e) [])) \<and>
   (driving_inner l k ty n \<and> heap w n = Some a \<and> deliverable i \<and> aw_step a i = Inl r \<and>
    is_StopIteration (cls r) \<and> advance True (k (Resume_value (arg r))) = Head_raise e s' \<longrightarrow>
      fst (bridge_step (Suspended l) i w) = Raised (Exn StopAsyncIteration PNone (Some e) [])) \<and>
   (driving_inner l k ty n \<and> heap w n = Some a \<and> deliverable i \<and> aw_step a i = Inl r \<and>
    \<not> is_StopIteration (cls r) \<and> is_Exception (cls r) \<and>
    advance True (k (Resume_exception r)) = Head_raise e s' \<longrightarrow>
      fst (bridge_step (Suspended l) i w) = Raised (Exn StopAsyncIteration PNone (Some e) [])) \<and>
   (task_raised b = None \<and> task_raised (fst (snd (bridge_step b i w))) = Some e \<longrightarrow>
      fst (bridge_step b i w) = Raised (Exn StopAsyncIteration PNone (Some e) []) \<and>
      fst (coro_step (Coro_awaiting b) i w) = Raised (Exn StopAsyncIteration PNone (Some e) [])) \<and>
   (task_raised (fst (snd (bridge_step (new_generator_coroutine callable args kwargs)
       (Send PNone) w))) = Some e \<longrightarrow>
      fst (coro_step (new_coroutine callable args kwargs) (Send PNone) w) =
        Raised (Exn StopAsyncIteration PNone (Some e) [])) \<and>
   (advance True (callable args kwargs (env w)) = Head_return v s' \<longrightarrow>
      fst (bridge_step (new_generator_coroutine callable args kwargs) (Send PNone) w) = Returned v) \<and>
   (cls e' = TaskletStopIteration \<and> task_raised b = None \<and>
    task_raised (fst (snd (bridge_step b i w))) = Some e' \<longrightarrow>
      fst (bridge_step b i w) = Returned (arg e') \<and>
      fst (coro_step (Coro_awaiting b) i w) = Returned (arg e'))"
proof (intro conjI impI)
  assume c: "cls e = StopIteration"
  then have te: "leave_generator (task_exception e) = Raised (Exn StopAsyncIteration PNone (Some e) [])"
    by (simp add: task_exception_def)
  {
    assume h: "advance True (callable args kwargs (env w)) = Head_raise e s'"
    show "fst (bridge_step (new_generator_coroutine callable args kwargs) (Send PNone) w) =
        Raised (Exn StopAsyncIteration PNone (Some e) [])"
      using bridge_start_raise[of callable args kwargs w e s'] h te by simp
    then show "fst (coro_step (new_coroutine callable args kwargs) (Send PNone) w) =
        Raised (Exn StopAsyncIteration PNone (Some e) [])"
      by (simp add: fst_coro_start)
  }
  {
    assume h: "running_task l k \<and> advance True (k (Resume_value x)) = Head_raise e s'"
    then show "fst (bridge_step (Suspended l) (Send x) w) =
        Raised (Exn StopAsyncIteration PNone (Some e) [])"
      using send_raise[of l k x e s' w] te by simp
  }
  {
    assume h: "running_task l k \<and> is_Exception (cls ex) \<and>
      advance True (k (Resume_exception ex)) = Head_raise e s'"
    then show "fst (bridge_step (Suspended l) (Throw ex) w) =
        Raised (Exn StopAsyncIteration PNone (Some e) [])"
      using throw_raise[of l k ex e s' w] te by simp
  }
  {
    assume h: "driving_inner l k ty n \<and> heap w n = Some a \<and> deliverable i \<and> aw_step a i = Inl r \<and>
      is_StopIteration (cls r) \<and> advance True (k (Resume_value (arg r))) = Head_raise e s'"
    then show "fst (bridge_step (Suspended l) i w) = Raised (Exn StopAsyncIteration PNone (Some e) [])"
      using inner_done_raise[of l k ty n w a i r e s'] te by simp
  }
  {
    assume h: "driving_inner l k ty n \<and> heap w n = Some a \<and> deliverable i \<and> aw_step a i = Inl r \<and>
      \<not> is_StopIteration (cls r) \<and> is_Exception (cls r) \<and>
      advance True (k (Resume_exception r)) = Head_raise e s'"
    then show "fst (bridge_step (Suspended l) i w) = Raised (Exn StopAsyncIteration PNone (Some e) [])"
      using inner_failed_raise[of l k ty n w a i r e s'] te by simp
  }
  {
    assume h: "task_raised b = None \<and> task_raised (fst (snd (bridge_step b i w))) = Some e"
    then show "fst (bridge_step b i w) = Raised (Exn StopAsyncIteration PNone (Some e) [])"
      using bridge_task_raised[of b i w e] te by simp
    from h show "fst (coro_step (Coro_awaiting b) i w) =
        Raised (Exn StopAsyncIteration PNone (Some e) [])"
      using coro_task_raised[of b i w e] te by simp
  }
  {
    assume h: "task_raised (fst (snd (bridge_step (new_generator_coroutine callable args kwargs)
       (Send PNone) w))) = Some e"
    have "task_raised (new_generator_coroutine callable args kwargs) = None"
      by (simp add: new_generator_coroutine_def task_raised_def bridge_task_def)
    then have "fst (bridge_step (new_generator_coroutine callable args kwargs) (Send PNone) w) =
        Raised (Exn StopAsyncIteration PNone (Some e) [])"
      using bridge_task_raised[of "new_generator_coroutine callable args kwargs" "Send PNone" w e] h te
      by simp
    then show "fst (coro_step (new_coroutine callable args kwargs) (Send PNone) w) =
        Raised (Exn StopAsyncIteration PNone (Some e) [])"
      by (simp add: fst_coro_start)
  }
  {
    assume h: "advance True (callable args kwargs (env w)) = Head_return v s'"
    then show "fst (bridge_step (new_generator_coroutine callable args kwargs) (Send PNone) w) = Returned v"
      using bridge_start_return[of callable args kwargs w v s'] by simp
  }
  {
    assume h: "cls e' = TaskletStopIteration \<and> task_raised b = None \<and>
      task_raised (fst (snd (bridge_step b i w))) = Some e'"
    then have te': "leave_generator (task_exception e') = Returned (arg e')"
      by (simp add: task_exception_def)
    from h show "fst (bridge_step b i w) = Returned (arg e')"
      using bridge_task_raised[of b i w e'] te' by simp
    from h show "fst (coro_step (Coro_awaiting b) i w) = Returned (arg e')"
      using coro_task_raised[of b i w e'] te' by simp
  }
qed

theorem exhaustion_remapping_witness:
  "cls stop_iteration = StopIteration \<and>
   advance True (Raise stop_iteration () :: unit task) = Head_raise stop_iteration () \<and>
   fst (bridge_step (new_generator_coroutine (\<lambda>a k s. Raise stop_iteration s) [] []) (Send PNone)
          (world_with None)) = Raised (Exn StopAsyncIteration PNone (Some stop_iteration) []) \<and>
   fst (coro_step (new_coroutine (\<lambda>a k s. Raise stop_iteration s) [] []) (Send PNone)
          (world_with None)) = Raised (Exn StopAsyncIteration PNone (Some stop_iteration) []) \<and>
   running_task (demo_locals PNone (\<lambda>r. Raise stop_iteration ())) (\<lambda>r. Raise stop_iteration ()) \<and>
   fst (bridge_step (Suspended (demo_locals PNone (\<lambda>r. Raise stop_iteration ()))) (Send (PInt 1))
          (world_with None)) = Raised (Exn StopAsyncIteration PNone (Some stop_iteration) []) \<and>
   is_Exception (cls demo_error) \<and>
   fst (bridge_step (Suspended (demo_locals PNone (\<lambda>r. Raise stop_iteration ()))) (Throw demo_error)
          (world_with None)) = Raised (Exn StopAsyncIteration PNone (Some stop_iteration) []) \<and>
   driving_inner (demo_locals the_awaitable (\<lambda>r. Raise stop_iteration ()))
     (\<lambda>r. Raise stop_iteration ()) Generator_type 0 \<and>
   aw_step (returning (PInt 1)) (Send PNone) = Inl (new_exn StopIteration (PInt 1)) \<and>
   fst (bridge_step (Suspended (demo_locals the_awaitable (\<lambda>r. Raise stop_iteration ())))
          (Send PNone) (world_with (Some (returning (PInt 1))))) =
     Raised (Exn StopAsyncIteration PNone (Some stop_iteration) []) \<and>
   aw_step failing (Send PNone) = Inl demo_error \<and>
   fst (bridge_step (Suspended (demo_locals the_awaitable (\<lambda>r. Raise stop_iteration ())))
          (Send PNone) (world_with (Some failing))) =
     Raised (Exn StopAsyncIteration PNone (Some stop_iteration) []) \<and>
   task_raised (fst (snd (bridge_step (new_generator_coroutine exhausting_callable [] [])
          (Send PNone) (world_with (Some (returning (PInt 1))))))) = Some stop_iteration \<and>
   fst (bridge_step (new_generator_coroutine exhausting_callable [] []) (Send PNone)
          (world_with (Some (returning (PInt 1))))) =
     Raised (Exn StopAsyncIteration PNone (Some stop_iteration) []) \<and>
   fst (coro_step (new_coroutine exhausting_callable [] []) (Send PNone)
          (world_with (Some (returning (PInt 1))))) =
     Raised (Exn StopAsyncIteration PNone (Some stop_iteration) []) \<and>
   advance True (Return (PInt 7) () :: unit task) = Head_return (PInt 7) () \<and>
   fst (bridge_step (new_generator_coroutine (\<lambda>a k s. Return (PInt 7) s) [] []) (Send PNone)
          (world_with None)) = Returned (PInt 7) \<and>
   task_raised (fst (snd (bridge_step (new_generator_coroutine awaiting_callable [] [])
          (Send PNone) (world_with (Some (returning (PInt 1))))))) =
     Some (new_exn TaskletStopIteration (PInt 1)) \<and>
   fst (bridge_step (new_generator_coroutine awaiting_callable [] []) (Send PNone)
          (world_with (Some (returning (PInt 1))))) = Returned (PInt 1)"
  using exhaustion_remapping[of stop_iteration "\<lambda>a k s. Raise stop_iteration s" "[]" "[]"
      "world_with None" "()" "demo_locals PNone (\<lambda>r. Raise stop_iteration ())"
      "\<lambda>r. Raise stop_iteration ()" "PInt 1" demo_error Generator_type 0 failing "Send PNone"
      demo_error "new_generator_coroutine (\<lambda>a k s. Raise stop_iteration s) [] []" PNone
      "new_exn TaskletStopIteration (PInt 1)"]
    exhaustion_remapping[of stop_iteration "\<lambda>a k s. Return (PInt 7) s" "[]" "[]"
      "world_with (Some (returning (PInt 1)))" "()"
      "demo_locals the_awaitable (\<lambda>r. Raise stop_iteration ())"
      "\<lambda>r. Raise stop_iteration ()" "PInt 1" demo_error Generator_type 0 "returning (PInt 1)"
      "Send PNone" "new_exn StopIteration (PInt 1)"
      "new_generator_coroutine awaiting_callable [] []" "PInt 7"
      "new_exn TaskletStopIteration (PInt 1)"]
    exhaustion_remapping[of stop_iteration exhausting_callable "[]" "[]"
      "world_with (Some (returning (PInt 1)))" "()"
      "demo_locals the_awaitable (\<lambda>r. Raise stop_iteration ())"
      "\<lambda>r. Raise stop_iteration ()" "PInt 1" demo_error Generator_type 0 "returning (PInt 1)"
      "Send PNone" "new_exn StopIteration (PInt 1)"
      "new_generator_coroutine exhausting_callable [] []" "PInt 7"
      "new_exn TaskletStopIteration (PInt 1)"]
    exhaustion_remapping[of stop_iteration exhausting_callable "[]" "[]"
      "world_with (Some failing)" "()"
      "demo_locals the_awaitable (\<lambda>r. Raise stop_iteration ())"
      "\<lambda>r. Raise stop_iteration ()" "PInt 1" demo_error Generator_type 0 failing
      "Send PNone" demo_error
      "new_generator_coroutine exhausting_callable [] []" "PInt 7"
      "new_exn TaskletStopIteration (PInt 1)"]
  by (simp add: stop_iteration_def demo_error_def world_with_def demo_locals_def running_task_def
      driving_inner_def blocked_on_def failing_def returning_def new_exn_def the_awaitable_def
      awaiting_callable_def exhausting_callable_def await_coroutine_def schedule_remove_def
      await_marker_def task_raised_def bridge_task_def at_yield_def sys_exc_info_def thrown_def
      with_traceback_def bridge_eval loop.simps run_entry_applies obj_send_def obj_throw_def
      step_object_def inner_result_def raise_TaskletStopIteration_def new_coroutine_def
      as_coroutinefunction_def awaiting_def)

text \<open>
  C5. Where the context variable \<^verbatim>\<open>_is_as_coroutine_tasklet\<close> reads False,
  \<^verbatim>\<open>await_coroutine\<close> raises the RuntimeError for any argument, a coroutine or not, without
  suspending the task or changing the state; the first step of the generator of
  \<^verbatim>\<open>generator\<close> raises its RuntimeError for any source, without a call on the source.
\<close>

theorem context_guard:
  "advance False (await_coroutine current x s) =
     Head_raise (new_exn RuntimeError (PStr (''Can't call await_coroutine from tasklet '' @ current))) s \<and>
   advance False (generator_step current C (generator asyncgen) (Send PNone) s) =
     Head_return (Raised (new_exn RuntimeError (PStr (''Can't call generator() from tasklet '' @ current))),
                  Forward_finished) s"
  by (simp add: await_coroutine_def generator_def forward_start_def)










lemma run_task_to_yield:
  "run_task l w = (To_yield l2, w2) \<Longrightarrow> \<not> is_await_marker (val l2) \<and> wait_for l2 = wait_for l"
  by (auto simp: run_task_def Let_def split: if_splits option.splits prod.splits)

lemma loop_yield_plain:
  "loop l w = (Yielded v, Suspended l', w') \<Longrightarrow> wait_for l' = PNone \<Longrightarrow> \<not> is_await_marker v"
proof (induction l w rule: loop.induct)
  case (1 l w)
  obtain r w1 where d: "drive_inner l w = (r, w1)" by (cases "drive_inner l w")
  show ?case
  proof (cases r)
    case (Inl e)
    with 1(2) d show ?thesis by (simp add: loop.simps)
  next
    case (Inr l1)
    show ?thesis
    proof (cases "wait_for l1 = PNone")
      case True
      obtain nx w2 where rt: "run_task l1 w1 = (nx, w2)" by (cases "run_task l1 w1")
      show ?thesis
      proof (cases nx)
        case (Exit out t)
        with 1(2) d Inr True rt show ?thesis by (simp add: loop.simps)
      next
        case (Loop l2)
        with 1(2) d Inr True rt have "loop l2 w2 = (Yielded v, Suspended l', w')"
          by (simp add: loop.simps)
        with 1(1)[OF d[symmetric] Inr True rt[symmetric] Loop] 1(3) show ?thesis by simp
      next
        case (To_yield l2)
        with 1(2) d Inr True rt run_task_to_yield[of l1 w1 l2 w2] show ?thesis
          by (auto simp add: loop.simps)
      qed
    next
      case False
      with 1(2) 1(3) d Inr show ?thesis by (simp add: loop.simps)
    qed
  qed
qed

lemma bridge_step_yield_plain:
  "bridge_step b i w = (Yielded v, Suspended l', w') \<Longrightarrow> wait_for l' = PNone \<Longrightarrow>
   \<not> is_await_marker v"
proof (cases b)
  case (Unstarted c a k)
  assume h: "bridge_step b i w = (Yielded v, Suspended l', w')" "wait_for l' = PNone"
  show ?thesis
  proof (cases i)
    case (Send x)
    with h Unstarted show ?thesis
      by (auto simp: start_body_def spawn_def leave_generator_def Let_def
          split: if_splits prod.splits gen_out.splits dest: loop_yield_plain)
  next
    case (Throw e)
    with h Unstarted show ?thesis by (simp add: leave_generator_def split: if_splits)
  qed
next
  case (Suspended l)
  assume h: "bridge_step b i w = (Yielded v, Suspended l', w')" "wait_for l' = PNone"
  with Suspended show ?thesis
    by (auto simp: leave_generator_def
        split: if_splits prod.splits gen_out.splits sum.splits dest: loop_yield_plain)
next
  case (Finished t)
  assume h: "bridge_step b i w = (Yielded v, Suspended l', w')"
  with Finished show ?thesis by (cases i) simp_all
qed

lemma run_task_exit_not_yield: "run_task l w = (Exit (Yielded v) t, w') \<Longrightarrow> False"
  by (auto simp: run_task_def Let_def split: if_splits option.splits prod.splits)

lemma at_yield_exit_not_yield: "at_yield l i w = (Inl (Yielded v, t), w') \<Longrightarrow> False"
  by (auto simp: at_yield_def Let_def split: ginp.splits if_splits option.splits prod.splits)

lemma loop_yield_suspended:
  "loop l w = (Yielded v, b', w') \<Longrightarrow> \<exists>l'. b' = Suspended l'"
proof (induction l w rule: loop.induct)
  case (1 l w)
  obtain r w1 where d: "drive_inner l w = (r, w1)" by (cases "drive_inner l w")
  show ?case
  proof (cases r)
    case (Inl e)
    with 1(2) d show ?thesis by (simp add: loop.simps)
  next
    case (Inr l1)
    show ?thesis
    proof (cases "wait_for l1 = PNone")
      case True
      obtain nx w2 where rt: "run_task l1 w1 = (nx, w2)" by (cases "run_task l1 w1")
      show ?thesis
      proof (cases nx)
        case (Exit out t)
        with 1(2) d Inr True rt show ?thesis
          by (auto simp add: loop.simps dest: run_task_exit_not_yield)
      next
        case (Loop l2)
        with 1(2) d Inr True rt have "loop l2 w2 = (Yielded v, b', w')"
          by (simp add: loop.simps)
        with 1(1)[OF d[symmetric] Inr True rt[symmetric] Loop] show ?thesis by simp
      next
        case (To_yield l2)
        with 1(2) d Inr True rt show ?thesis by (auto simp add: loop.simps)
      qed
    next
      case False
      with 1(2) d Inr show ?thesis by (auto simp add: loop.simps)
    qed
  qed
qed

text \<open>
  C10, as amended. Whenever a step of the bridge yields a value while no inner awaitable
  is pending, that is a value the task has published, the value is no 2-tuple tagged
  \<^verbatim>\<open>"await"\<close>: a marker of the task is consumed by the bridge. (A value yielded while an
  inner awaitable is pending is a value of that awaitable, forwarded as it is.)
\<close>

theorem published_values_are_not_markers:
  "fst (bridge_step b i w) = Yielded v \<Longrightarrow>
   pending_inner (fst (snd (bridge_step b i w))) = PNone \<Longrightarrow> \<not> is_await_marker v"
proof -
  assume y: "fst (bridge_step b i w) = Yielded v"
    and p: "pending_inner (fst (snd (bridge_step b i w))) = PNone"
  obtain b' w' where st: "bridge_step b i w = (Yielded v, b', w')"
    using y by (cases "bridge_step b i w") auto
  have "\<exists>l'. b' = Suspended l'"
  proof (cases b)
    case (Unstarted c a k)
    show ?thesis
    proof (cases i)
      case (Send x)
      with st Unstarted show ?thesis
        by (auto simp: start_body_def spawn_def leave_generator_def Let_def
            split: if_splits prod.splits gen_out.splits dest: loop_yield_suspended)
    next
      case (Throw e)
      with st Unstarted show ?thesis by (simp add: leave_generator_def split: if_splits)
    qed
  next
    case (Suspended l)
    with st show ?thesis
      by (auto simp: leave_generator_def
          split: if_splits prod.splits gen_out.splits sum.splits
          dest: loop_yield_suspended at_yield_exit_not_yield)
  next
    case (Finished t)
    with st show ?thesis by (cases i) simp_all
  qed
  then obtain l' where b': "b' = Suspended l'" by blast
  with p st have "wait_for l' = PNone" by (simp add: pending_inner_def)
  with st b' show ?thesis using bridge_step_yield_plain[of b i w v l' w'] by simp
qed

theorem published_values_are_not_markers_witness:
  "fst (bridge_step (new_generator_coroutine publishing_callable [] []) (Send PNone)
          (world_with None)) = Yielded (PInt 5) \<and>
   pending_inner (fst (snd (bridge_step (new_generator_coroutine publishing_callable [] [])
          (Send PNone) (world_with None)))) = PNone \<and>
   \<not> is_await_marker (PInt 5)"
  using published_values_are_not_markers[of "new_generator_coroutine publishing_callable [] []"
      "Send PNone" "world_with None" "PInt 5"]
  by (simp add: bridge_eval loop.simps run_entry_applies publishing_callable_def
      schedule_remove_def world_with_def pending_inner_def)

text \<open>
  C10 as stated fails when the inner awaitable itself yields a 2-tuple tagged
  \<^verbatim>\<open>"await"\<close>: the task awaits the awaitable \<open>tagged\<close>, and the first step of the bridge
  yields that tuple to the outer driver.
\<close>

theorem marker_counterexample:
  "fst (bridge_step (new_generator_coroutine awaiting_callable [] []) (Send PNone)
          (world_with (Some tagged))) = Yielded (PTuple [PStr ''await'', PInt 1]) \<and>
   is_await_marker (PTuple [PStr ''await'', PInt 1])"
  by (simp add: bridge_eval loop.simps run_entry_applies awaiting_callable_def the_awaitable_def
      await_coroutine_def schedule_remove_def await_marker_def world_with_def tagged_def
      new_exn_def obj_send_def step_object_def inner_result_def)





section \<open>Properties of the adapters\<close>

lemma returns_awaitableE:
  assumes "returns_awaitable r"
  obtains a ob' where "r = (Inr a, ob')"
proof (cases r)
  case (Pair x ob')
  with assms show ?thesis
    by (cases x) (auto simp: returns_awaitable_def intro: that)
qed

lemma iterate_suspended:
  assumes "cls stop = StopAsyncIteration" "asend_m C = Some snd_m"
    "\<forall>ob. returns_awaitable (snd_m ob PNone)"
  shows "iterate current C (Forward_suspended ob) (map Resume_value xs @ [Resume_exception stop]) s =
         (xs, Some (Returned PNone))"
proof (induction xs arbitrary: ob)
  case Nil
  from assms(3) have "returns_awaitable (snd_m ob PNone)" by simp
  then obtain a ob' where c: "snd_m ob PNone = (Inr a, ob')" by (rule returns_awaitableE)
  show ?case using assms(1,2) c
    by (simp add: forward_resume_def forward_loop_def call_method_def forward_exit_def)
next
  case (Cons x xs)
  from assms(3) have "returns_awaitable (snd_m ob PNone)" by simp
  then obtain a ob' where c: "snd_m ob PNone = (Inr a, ob')" by (rule returns_awaitableE)
  show ?case using assms(1,2) c Cons.IH[of ob']
    by (simp add: forward_resume_def forward_loop_def call_method_def)
qed

text \<open>
  The forward adapter over a source that has \<^verbatim>\<open>__anext__\<close> and \<^verbatim>\<open>asend\<close>, and whose calls
  return awaitables. Inside a bridged task (the context variable reads True) the consumer
  iterates over \<^verbatim>\<open>generator(source)\<close>; awaiting the published awaitables results, in
  order, in the values \<open>xs\<close> and then in StopAsyncIteration. Then the iteration gives
  exactly \<open>xs\<close>, in order, and ends normally. The first awaitable published is the one
  \<^verbatim>\<open>__anext__\<close> returns; after the consumer sends \<open>x\<close> (\<^verbatim>\<open>next\<close> sends None) it is the one
  \<^verbatim>\<open>asend(x)\<close> returns; after the consumer throws an exception it is the one \<^verbatim>\<open>athrow\<close>
  returns.
\<close>

lemma forward_over_async_generator:
  assumes "cls stop = StopAsyncIteration" and "aiter_m C ob = Inr it"
    and "anext_m C = Some next_m'" and "asend_m C = Some snd_m"
    and "\<forall>ob. returns_awaitable (next_m' ob)" and "\<forall>ob. returns_awaitable (snd_m ob PNone)"
  shows "iterate current C (generator ob) (map Resume_value xs @ [Resume_exception stop]) s =
           (xs, Some (Returned PNone)) \<and>
         published (advance True (generator_step current C (generator ob) (Send PNone) s)) =
           Some (await_marker (awaitable_of (next_m' it))) \<and>
         (returns_awaitable (snd_m ob' x) \<longrightarrow>
            published (advance True (generator_step current C (Forward_suspended ob') (Send x) s)) =
              Some (await_marker (awaitable_of (snd_m ob' x)))) \<and>
         (athrow_m C = Some throw_m' \<and> is_Exception (cls e) \<and>
          returns_awaitable (throw_m' ob' (sys_exc_info e)) \<longrightarrow>
            published (advance True (generator_step current C (Forward_suspended ob') (Throw e) s)) =
              Some (await_marker (awaitable_of (throw_m' ob' (sys_exc_info e)))))"
proof (intro conjI impI)
  from assms(5) have "returns_awaitable (next_m' it)" by simp
  then obtain a it' where c: "next_m' it = (Inr a, it')" by (rule returns_awaitableE)
  show "iterate current C (generator ob) (map Resume_value xs @ [Resume_exception stop]) s =
           (xs, Some (Returned PNone))"
  proof (cases xs)
    case Nil
    then show ?thesis using assms(1,2,3) c
      by (simp add: generator_def forward_start_def forward_loop_def call_method_def
          forward_exit_def)
  next
    case (Cons y ys)
    then show ?thesis
      using assms(2,3) c iterate_suspended[OF assms(1) assms(4) assms(6), of current it' ys s]
      by (simp add: generator_def forward_start_def forward_loop_def call_method_def)
  qed
  show "published (advance True (generator_step current C (generator ob) (Send PNone) s)) =
           Some (await_marker (awaitable_of (next_m' it)))"
    using assms(2,3) c
    by (simp add: generator_def forward_start_def forward_loop_def call_method_def
        published_def awaitable_of_def)
next
  assume "returns_awaitable (snd_m ob' x)"
  then obtain a ob'' where c: "snd_m ob' x = (Inr a, ob'')" by (rule returns_awaitableE)
  show "published (advance True (generator_step current C (Forward_suspended ob') (Send x) s)) =
              Some (await_marker (awaitable_of (snd_m ob' x)))"
    using assms(4) c
    by (simp add: forward_resume_def forward_loop_def call_method_def published_def
        awaitable_of_def)
next
  assume h: "athrow_m C = Some throw_m' \<and> is_Exception (cls e) \<and>
          returns_awaitable (throw_m' ob' (sys_exc_info e))"
  then have "returns_awaitable (throw_m' ob' (sys_exc_info e))" by simp
  then obtain a ob'' where c: "throw_m' ob' (sys_exc_info e) = (Inr a, ob'')"
    by (rule returns_awaitableE)
  from h have ne: "cls e \<noteq> GeneratorExit" by auto
  show "published (advance True (generator_step current C (Forward_suspended ob') (Throw e) s)) =
              Some (await_marker (awaitable_of (throw_m' ob' (sys_exc_info e))))"
    using h c ne
    by (simp add: forward_resume_def forward_throw_def forward_loop_def call_method_def
        published_def awaitable_of_def)
qed

lemma forward_over_async_generator_example:
  "cls stop_async_iteration = StopAsyncIteration \<and>
   aiter_m async_generator_class 0 = Inr 0 \<and>
   returns_awaitable (nth_awaitable 7) \<and>
   is_Exception (cls demo_error) \<and>
   iterate ''main'' async_generator_class (generator 0)
     (map Resume_value [PInt 1, PInt 2, PInt 3] @ [Resume_exception stop_async_iteration]) () =
     ([PInt 1, PInt 2, PInt 3], Some (Returned PNone)) \<and>
   published (advance True (generator_step ''main'' async_generator_class (generator 0)
       (Send PNone) ())) = Some (await_marker (PObj Coroutine_type 0)) \<and>
   published (advance True (generator_step ''main'' async_generator_class (Forward_suspended 7)
       (Send (PInt 9)) ())) = Some (await_marker (PObj Coroutine_type 7)) \<and>
   published (advance True (generator_step ''main'' async_generator_class (Forward_suspended 7)
       (Throw demo_error) ())) = Some (await_marker (PObj Coroutine_type 7))"
  using forward_over_async_generator[of stop_async_iteration async_generator_class 0 0 nth_awaitable
      "\<lambda>n v. nth_awaitable n" "''main''" "[PInt 1, PInt 2, PInt 3]" "()" 7 "PInt 9"
      "\<lambda>n x. nth_awaitable n" demo_error]
  by (simp add: stop_async_iteration_def new_exn_def async_generator_class_def nth_awaitable_def
      returns_awaitable_def awaitable_of_def demo_error_def)

text \<open>
  The adapter inside the bridge: the consumer runs as the task of a bridge, over a source
  with the methods of an asynchronous generator whose awaitables return 1, 2 and 3 and
  then raise StopAsyncIteration. The bridge drives each awaitable and resumes the task
  with its result, and returns the tuple of the three items.
\<close>

lemma forward_through_bridge:
  "fst (bridge_step (new_generator_coroutine (consumer async_generator_class) [] []) (Send PNone)
          one_two_three) = Returned (PTuple [PInt 1, PInt 2, PInt 3])"
  by (simp add: bridge_eval loop.simps run_entry_applies consumer_def async_generator_class_def
      nth_awaitable_def generator_def forward_start_def forward_loop_def call_method_def
      forward_resume_def forward_throw_def forward_exit_def await_marker_def
      one_two_three_def returning_def exhausted_def new_exn_def obj_send_def step_object_def
      inner_result_def raise_TaskletStopIteration_def eval_nat_numeral)

text \<open>
  C7. The source is an asynchronous iterator that has \<^verbatim>\<open>__aiter__\<close> and \<^verbatim>\<open>__anext__\<close> but
  no \<^verbatim>\<open>asend\<close> and no \<^verbatim>\<open>athrow\<close>, and produces 1, 2 and 3 before it ends with
  StopAsyncIteration. Iterating over \<^verbatim>\<open>generator(source)\<close> inside a bridged task gets 1,
  and the second \<^verbatim>\<open>next\<close> raises AttributeError instead of giving 2: line 164 looks up
  \<^verbatim>\<open>cls.asend\<close> after every \<^verbatim>\<open>yield\<close>, the AttributeError is caught by the handler of
  line 171, which looks up \<^verbatim>\<open>cls.athrow\<close>. The bridge whose task is the consumer of
  that source raises the AttributeError to its driver.
\<close>

theorem forward_iterator_plain_source:
  "iterate ''main'' plain_async_iterator (generator 0)
     (map Resume_value [PInt 1, PInt 2, PInt 3] @ [Resume_exception stop_async_iteration]) () =
     ([PInt 1], Some (Raised (no_attribute ''athrow''))) \<and>
   fst (bridge_step (new_generator_coroutine (consumer plain_async_iterator) [] []) (Send PNone)
          one_two_three) = Raised (no_attribute ''athrow'')"
  by (simp add: plain_async_iterator_def nth_awaitable_def generator_def forward_start_def
      forward_loop_def call_method_def forward_resume_def forward_throw_def
      bridge_eval loop.simps run_entry_applies consumer_def forward_exit_def await_marker_def
      one_two_three_def returning_def exhausted_def new_exn_def obj_send_def step_object_def
      inner_result_def raise_TaskletStopIteration_def eval_nat_numeral no_attribute_def)

lemma fst_after_await:
  "fst (after_await st r) =
     (case fst r of
        Yielded y \<Rightarrow> Pending y st (fst (snd r))
      | Returned v \<Rightarrow>
          (case st of
             Stepping \<Rightarrow> Done (Produced v) Async_suspended
           | Closing g \<Rightarrow> Done (Failed g) Async_finished)
      | Raised e \<Rightarrow> Done (body_exception st e) Async_finished)"
  by (simp add: after_await_def split: prod.splits gen_out.splits site.splits)







lemma snd_after_await: "snd (after_await st r) = snd (snd r)"
  by (simp add: after_await_def split: prod.splits gen_out.splits site.splits)

lemma start_return_env:
  assumes "advance True (callable args kwargs (env w)) = Head_return v s'"
  shows "env (snd (snd (bridge_step (new_generator_coroutine callable args kwargs) (Send PNone) w))) = s'"
  using advance_bind_return[OF assms, of raise_TaskletStopIteration]
  by (simp add: bridge_eval loop.simps run_entry_applies raise_TaskletStopIteration_def new_exn_def)

text \<open>
  C9, as amended. For a wrapped object without \<^verbatim>\<open>send\<close>, a step of the asynchronous
  generator that is given a value other than None raises the AttributeError of the
  missing \<^verbatim>\<open>send\<close> and runs nothing, and a step that is given None (the first step, and
  every later step made by \<^verbatim>\<open>__anext__\<close> or \<^verbatim>\<open>asend(None)\<close>) awaits the bridge of
  \<^verbatim>\<open>__next__\<close>: when \<^verbatim>\<open>__next__\<close> returns \<open>y\<close> the step produces \<open>y\<close> and the object is in
  the state \<^verbatim>\<open>__next__\<close> left.
\<close>

theorem missing_send_fallback:
  "send_m C = None \<Longrightarrow>
   (v \<noteq> PNone \<longrightarrow>
      async_generator_step C gen Async_suspended (Asend v) w =
        (Done (Failed (no_attribute ''send'')) Async_finished, w)) \<and>
   (next_m C = Some nx \<longrightarrow>
      async_generator_step C gen Async_suspended (Asend PNone) w =
        after_await Stepping (bridge_step (new_generator_coroutine nx [gen] []) (Send PNone) w) \<and>
      async_generator_step C gen async_generator (Asend PNone) w =
        after_await Stepping (bridge_step (new_generator_coroutine nx [gen] []) (Send PNone) w)) \<and>
   (next_m C = Some nx \<and> advance True (nx [gen] [] (env w)) = Head_return y g' \<longrightarrow>
      fst (async_generator_step C gen Async_suspended (Asend PNone) w) =
        Done (Produced y) Async_suspended \<and>
      env (snd (async_generator_step C gen Async_suspended (Asend PNone) w)) = g')"
proof (intro conjI impI)
  assume s: "send_m C = None"
  {
    assume "v \<noteq> PNone"
    then show "async_generator_step C gen Async_suspended (Asend v) w =
        (Done (Failed (no_attribute ''send'')) Async_finished, w)"
      using s by (simp add: async_iteration_def)
  }
  {
    assume n: "next_m C = Some nx"
    show "async_generator_step C gen Async_suspended (Asend PNone) w =
        after_await Stepping (bridge_step (new_generator_coroutine nx [gen] []) (Send PNone) w)"
      using s n by (simp add: async_iteration_def)
    show "async_generator_step C gen async_generator (Asend PNone) w =
        after_await Stepping (bridge_step (new_generator_coroutine nx [gen] []) (Send PNone) w)"
      using s n by (simp add: async_generator_def async_iteration_def)
  }
  {
    assume h: "next_m C = Some nx \<and> advance True (nx [gen] [] (env w)) = Head_return y g'"
    have st: "async_generator_step C gen Async_suspended (Asend PNone) w =
        after_await Stepping (bridge_step (new_generator_coroutine nx [gen] []) (Send PNone) w)"
      using s h by (simp add: async_iteration_def)
    show "fst (async_generator_step C gen Async_suspended (Asend PNone) w) =
        Done (Produced y) Async_suspended"
      using h bridge_start_return[of nx "[gen]" "[]" w y g']
      unfolding st by (simp add: fst_after_await del: bridge_step.simps)
    show "env (snd (async_generator_step C gen Async_suspended (Asend PNone) w)) = g'"
      using h start_return_env[of nx "[gen]" "[]" w y g']
      unfolding st by (simp add: snd_after_await del: bridge_step.simps)
  }
qed

theorem missing_send_fallback_witness:
  "send_m counter_class = None \<and> PInt 5 \<noteq> PNone \<and>
   async_generator_step counter_class the_generator Async_suspended (Asend (PInt 5))
     (counter_world 1) =
     (Done (Failed (no_attribute ''send'')) Async_finished, counter_world 1) \<and>
   next_m counter_class = Some (\<lambda>args kwargs n. Return (PInt (int n)) (Suc n)) \<and>
   fst (async_generator_step counter_class the_generator Async_suspended (Asend PNone)
          (counter_world 1)) = Done (Produced (PInt 1)) Async_suspended \<and>
   env (snd (async_generator_step counter_class the_generator Async_suspended (Asend PNone)
          (counter_world 1))) = 2"
  using missing_send_fallback[of counter_class "PInt 5" the_generator "counter_world 1"
      "\<lambda>args kwargs n. Return (PInt (int n)) (Suc n)" "PInt 1" 2]
  by (simp add: counter_class_def counter_world_def async_iteration_def)

text \<open>
  C9 as stated fails on the second step of plain iteration: the wrapped iterator has no
  \<^verbatim>\<open>send\<close>, its first item is fetched with \<^verbatim>\<open>__next__\<close>, and so is its second, which
  \<^verbatim>\<open>__anext__\<close> asks for by sending None; no error is raised.
\<close>

theorem missing_send_counterexample:
  "(case async_generator_step counter_class the_generator async_generator (Asend PNone)
           (counter_world 0) of
      (p1, w1) \<Rightarrow>
        p1 = Done (Produced (PInt 0)) Async_suspended \<and>
        (case async_generator_step counter_class the_generator Async_suspended (Asend PNone) w1 of
           (p2, w2) \<Rightarrow> p2 = Done (Produced (PInt 1)) Async_suspended \<and> env w2 = 2))"
  by (simp add: counter_class_def counter_world_def async_generator_def async_iteration_def
      after_await_def bridge_eval loop.simps run_entry_applies raise_TaskletStopIteration_def
      new_exn_def)


end
